theory Spec2Isabelle
  imports Complex_Main "HOL-Library.AList" "HOL-Library.Char_ord" "HOL-Library.List_Lexorder"
    "HOL-Library.Multiset"
begin

section \<open>Venn\_app.py: strings and the filename helper\<close>

text \<open>
  Python strings are modelled as \<^typ>\<open>string\<close>; a \<^typ>\<open>char\<close> stands for a code point
  in the range 0..255, and the order on strings (\<open>HOL-Library.List_Lexorder\<close> over
  \<open>HOL-Library.Char_ord\<close>) is the lexicographic order by code point that Python's
  \<open>sorted\<close> uses on \<open>str\<close>.

  \<open>isspace\<close> is the class that \<open>str.strip()\<close> removes and \<open>re_word\<close> the class
  \<open>\w\<close> of the \<open>re\<close> module on \<open>str\<close> patterns, both restricted to code points
  below 256.
\<close>

definition isspace :: "char \<Rightarrow> bool" where
  "isspace c = (let n = (of_char c :: nat)
     in (9 \<le> n \<and> n \<le> 13) \<or> (28 \<le> n \<and> n \<le> 32) \<or> n = 133 \<or> n = 160)"

definition re_word :: "char \<Rightarrow> bool" where
  "re_word c = (let n = (of_char c :: nat)
     in (48 \<le> n \<and> n \<le> 57) \<or> (65 \<le> n \<and> n \<le> 90) \<or> n = 95 \<or> (97 \<le> n \<and> n \<le> 122)
        \<or> n = 170 \<or> n = 178 \<or> n = 179 \<or> n = 181 \<or> n = 185 \<or> n = 186
        \<or> (188 \<le> n \<and> n \<le> 190) \<or> (192 \<le> n \<and> n \<le> 214) \<or> (216 \<le> n \<and> n \<le> 246)
        \<or> (248 \<le> n \<and> n \<le> 255))"

text \<open>The set named by the spec: word characters, hyphen, period, space.\<close>

definition safe_char :: "char \<Rightarrow> bool" where
  "safe_char c = (re_word c \<or> c = CHR ''-'' \<or> c = CHR ''.'' \<or> c = CHR '' '')"

text \<open>The character class \<open>[^\w\-. ]\<close> of the pattern in \<open>sanitize_filename\<close>.\<close>

definition bad_char :: "char \<Rightarrow> bool" where
  "bad_char c = (\<not> safe_char c)"

text \<open>\<open>s.strip()\<close>: whitespace removed at both ends.\<close>

definition py_strip :: "string \<Rightarrow> string" where
  "py_strip s = rev (dropWhile isspace (rev (dropWhile isspace s)))"

text \<open>
  \<open>re.sub(r"[^\w\-. ]+", "_", s)\<close>: scanning from the left, every maximal run of
  characters of the class is replaced by one underscore.
\<close>

function re_sub_bad :: "string \<Rightarrow> string" where
  "re_sub_bad [] = []"
| "re_sub_bad (c # cs) =
     (if bad_char c then CHR ''_'' # re_sub_bad (dropWhile bad_char cs)
      else c # re_sub_bad cs)"
  by pat_completeness auto
termination
  by (relation "measure length") (auto simp: length_dropWhile_le less_Suc_eq_le)

text \<open>
  \<^verbatim>\<open>
  def sanitize_filename(s: str) -> str:
      s = (s or "").strip()
      s = re.sub(r"[^\w\-. ]+", "_", s)
      return s[:60] if len(s) > 60 else s
  \<close>
  The argument is optional: \<open>s or ""\<close> turns \<open>None\<close> (and the empty string) into \<open>""\<close>.
\<close>

definition sanitize_filename :: "string option \<Rightarrow> string" where
  "sanitize_filename s =
     (let s1 = py_strip (case s of None \<Rightarrow> [] | Some t \<Rightarrow> t);
          s2 = re_sub_bad s1
      in if length s2 > 60 then take 60 s2 else s2)"

text \<open>
  The wording of the spec, for comparison with the code: every character of the input
  that is outside the set is replaced by an underscore (one for one, with no trimming),
  and the result is cut to 60 characters.
\<close>

definition sanitize_spec :: "string \<Rightarrow> string" where
  "sanitize_spec s = take 60 (map (\<lambda>c. if safe_char c then c else CHR ''_'') s)"

text \<open>
  A string as its runs: a segment is a non-empty part of characters of the set followed
  by a non-empty run of characters outside it; \<open>segments_text\<close> is the text of a list
  of segments, \<open>segments_replaced\<close> the same text with one underscore for each run.
\<close>

definition run_segment :: "string \<times> string \<Rightarrow> bool" where
  "run_segment ur = (fst ur \<noteq> [] \<and> list_all safe_char (fst ur)
                      \<and> snd ur \<noteq> [] \<and> list_all bad_char (snd ur))"

definition segments_text :: "(string \<times> string) list \<Rightarrow> string" where
  "segments_text segs = concat (map (\<lambda>ur. fst ur @ snd ur) segs)"

definition segments_replaced :: "(string \<times> string) list \<Rightarrow> string" where
  "segments_replaced segs = concat (map (\<lambda>ur. fst ur @ ''_'') segs)"

section \<open>The set comparator\<close>

text \<open>
  A column (a pandas Series) is a list of cells; \<open>None\<close> is a missing cell. The values
  have some type \<open>'v\<close>, and \<open>to_str\<close> is their conversion to a string
  (\<open>astype(str)\<close>, \<open>str(...)\<close>).
\<close>

type_synonym 'v series = "'v option list"

primrec dropna :: "'v series \<Rightarrow> 'v list" where
  "dropna [] = []"
| "dropna (x # xs) = (case x of None \<Rightarrow> dropna xs | Some v \<Rightarrow> v # dropna xs)"

text \<open>
  \<^verbatim>\<open>
  def compute_sets(seriesA, seriesB):
      setA = set(seriesA.dropna().astype(str))
      setB = set(seriesB.dropna().astype(str))
      unique_A = sorted(setA - setB)
      unique_B = sorted(setB - setA)
      shared   = sorted(setA & setB)
      return setA, setB, unique_A, unique_B, shared
  \<close>
\<close>

definition compute_sets ::
  "('v \<Rightarrow> string) \<Rightarrow> 'v series \<Rightarrow> 'v series
    \<Rightarrow> string set \<times> string set \<times> string list \<times> string list \<times> string list" where
  "compute_sets to_str seriesA seriesB =
     (let setA = set (map to_str (dropna seriesA));
          setB = set (map to_str (dropna seriesB));
          unique_A = sorted_list_of_set (setA - setB);
          unique_B = sorted_list_of_set (setB - setA);
          shared = sorted_list_of_set (setA \<inter> setB)
      in (setA, setB, unique_A, unique_B, shared))"

section \<open>The result table\<close>

datatype exn =
    IndexError string
  | KeyError string
  | ValueError string
  | TypeError string
  | OtherError string

primrec exn_msg :: "exn \<Rightarrow> string" where
  "exn_msg (IndexError m) = m"
| "exn_msg (KeyError m) = m"
| "exn_msg (ValueError m) = m"
| "exn_msg (TypeError m) = m"
| "exn_msg (OtherError m) = m"

text \<open>
  A table is its columns in order, each a name and its cells. A Python dict literal
  inserts its items from left to right; a key that is already present keeps its
  position and takes the new value, which is what \<^const>\<open>AList.update\<close> does.
\<close>

type_synonym table = "(string \<times> string list) list"

definition dict_literal :: "('k \<times> 'a) list \<Rightarrow> ('k \<times> 'a) list" where
  "dict_literal kvs = foldl (\<lambda>d kv. AList.update (fst kv) (snd kv) d) [] kvs"

text \<open>\<open>pd.DataFrame(dict)\<close> of lists: raises when the lists differ in length.\<close>

definition pd_DataFrame :: "table \<Rightarrow> exn + table" where
  "pd_DataFrame d =
     (if list_all (\<lambda>col. length (snd col) = length (snd (hd d))) d then Inr d
      else Inl (ValueError ''All arrays must be of the same length''))"

text \<open>
  \<^verbatim>\<open>
  def to_results_df(la, lb, unique_A, unique_B, shared):
      max_len = max(len(unique_A), len(unique_B), len(shared))
      pad = lambda L: L + [""]*(max_len - len(L))
      return pd.DataFrame({
          f"Unique to {la}": pad(unique_A),
          f"Unique to {lb}": pad(unique_B),
          "Shared": pad(shared)
      })
  \<close>
  \<open>[""] * n\<close> is the empty list for \<open>n \<le> 0\<close>, as \<^const>\<open>replicate\<close> over the
  truncated difference is.
\<close>

definition pad :: "nat \<Rightarrow> string list \<Rightarrow> string list" where
  "pad max_len L = L @ replicate (max_len - length L) ''''"

definition to_results_df ::
  "string \<Rightarrow> string \<Rightarrow> string list \<Rightarrow> string list \<Rightarrow> string list \<Rightarrow> exn + table" where
  "to_results_df la lb unique_A unique_B shared =
     (let max_len = max (length unique_A) (max (length unique_B) (length shared))
      in pd_DataFrame (dict_literal
           [(''Unique to '' @ la, pad max_len unique_A),
            (''Unique to '' @ lb, pad max_len unique_B),
            (''Shared'', pad max_len shared)]))"

section \<open>Python values used by the session\<close>

text \<open>
  A Python \<open>float\<close> is a finite value, an infinity or NaN. Every comparison with NaN is
  false. The finite values are rationals (every double is one); the literals
  \<open>0.9\<close>, \<open>1.6\<close>, \<open>0.45\<close> and \<open>1.12\<close> denote the doubles nearest to them.
\<close>

datatype pyfloat = Fin rat | PInf | NInf | NaN

fun float_lt :: "pyfloat \<Rightarrow> pyfloat \<Rightarrow> bool" where
  "float_lt (Fin a) (Fin b) = (a < b)"
| "float_lt (Fin a) PInf = True"
| "float_lt NInf (Fin b) = True"
| "float_lt NInf PInf = True"
| "float_lt _ _ = False"

fun float_le :: "pyfloat \<Rightarrow> pyfloat \<Rightarrow> bool" where
  "float_le (Fin a) (Fin b) = (a \<le> b)"
| "float_le (Fin a) PInf = True"
| "float_le NInf (Fin b) = True"
| "float_le NInf PInf = True"
| "float_le NInf NInf = True"
| "float_le PInf PInf = True"
| "float_le _ _ = False"

definition lit_0_9 :: pyfloat where
  "lit_0_9 = Fin (8106479329266893 / 9007199254740992)"

definition lit_1_6 :: pyfloat where
  "lit_1_6 = Fin (3602879701896397 / 2251799813685248)"

definition lit_0_45 :: pyfloat where
  "lit_0_45 = Fin (8106479329266893 / 18014398509481984)"

definition lit_1_12 :: pyfloat where
  "lit_1_12 = Fin (1261007895663739 / 1125899906842624)"

text \<open>\<open>str(n)\<close> of a non-negative integer, as the f-strings format a count.\<close>

fun str_nat :: "nat \<Rightarrow> string" where
  "str_nat n = (if n < 10 then [char_of (48 + n)] else str_nat (n div 10) @ [char_of (48 + n mod 10)])"

declare str_nat.simps [simp del]

text \<open>\<open>xs[i]\<close> on a list: a negative index counts from the end.\<close>

definition py_index :: "'a list \<Rightarrow> int \<Rightarrow> exn + 'a" where
  "py_index xs i =
     (if 0 \<le> i \<and> i < int (length xs) then Inr (xs ! nat i)
      else if i < 0 \<and> - int (length xs) \<le> i then Inr (xs ! nat (int (length xs) + i))
      else Inl (IndexError ''list index out of range''))"

text \<open>
  A dict is an association list in insertion order: \<open>d[k]\<close> raises \<open>KeyError\<close> on a
  missing key, \<open>d[k] = v\<close> is \<^const>\<open>AList.update\<close>, \<open>d.clear()\<close> leaves \<open>[]\<close>.
\<close>

definition dict_lookup :: "(string \<times> 'a) list \<Rightarrow> string \<Rightarrow> exn + 'a" where
  "dict_lookup d k = (case map_of d k of None \<Rightarrow> Inl (KeyError k) | Some v \<Rightarrow> Inr v)"

text \<open>The functions of \<open>os.path\<close> that the program calls (POSIX flavour).\<close>

definition is_slash :: "char \<Rightarrow> bool" where
  "is_slash c = (c = CHR ''/'')"

definition os_path_basename :: "string \<Rightarrow> string" where
  "os_path_basename p = rev (takeWhile (\<lambda>c. \<not> is_slash c) (rev p))"

definition os_path_dirname :: "string \<Rightarrow> string" where
  "os_path_dirname p =
     (let h = rev (dropWhile (\<lambda>c. \<not> is_slash c) (rev p))
      in if h \<noteq> [] \<and> \<not> list_all is_slash h then rev (dropWhile is_slash (rev h)) else h)"

definition os_path_join :: "string \<Rightarrow> string \<Rightarrow> string" where
  "os_path_join a b =
     (if b \<noteq> [] \<and> is_slash (hd b) then b
      else if a = [] \<or> is_slash (last a) then a @ b
      else a @ ''/'' @ b)"

section \<open>The diagram\<close>

text \<open>
  \<open>draw_symmetric\<close> draws a fixed layout; what varies is recorded here: the three counts
  \<open>len(setA - setB)\<close>, \<open>len(setB - setA)\<close>, \<open>len(setA & setB)\<close>, the two labels, the
  two fill colours, the transparency and the label height factor.
\<close>

datatype render = Render
  (count_left: nat) (count_right: nat) (count_shared: nat)
  (label_left: string) (label_right: string)
  (fill_left: string) (fill_right: string)
  (fill_alpha: pyfloat) (label_height: pyfloat)

definition draw_symmetric ::
  "string set \<Rightarrow> string set \<Rightarrow> string \<Rightarrow> string \<Rightarrow> string \<Rightarrow> string \<Rightarrow> pyfloat \<Rightarrow> pyfloat
    \<Rightarrow> render" where
  "draw_symmetric setA setB la lb cA cB a ly =
     Render (card (setA - setB)) (card (setB - setA)) (card (setA \<inter> setB)) la lb cA cB a ly"

section \<open>The session state and what the callbacks do to the outside\<close>

text \<open>
  A worksheet (a DataFrame) is its columns in order, each a header and its cells;
  \<open>df.shape[1]\<close> is the number of columns.
\<close>

type_synonym 'v dataframe = "('v \<times> 'v series) list"

record 'v AppState =
  wb_path :: "string option"
  sheets :: "string list"
  dfs :: "(string \<times> 'v dataframe) list"
  labels :: "(string \<times> (string \<times> string)) list"
  headers :: "(string \<times> (string \<times> string)) list"
  idx :: int
  colorA :: string
  colorB :: string
  alpha :: pyfloat
  label_y :: pyfloat

definition init_state :: "'v AppState" where
  "init_state = \<lparr> wb_path = None, sheets = [], dfs = [], labels = [], headers = [], idx = 0,
     colorA = ''#f4c27a'', colorB = ''#a6d49f'', alpha = lit_0_45, label_y = lit_1_12 \<rparr>"

definition has_data :: "'v AppState \<Rightarrow> bool" where
  "has_data S = (dfs S \<noteq> [])"

text \<open>
  The effects of a callback, in order: message boxes, the redraw of the window's canvas,
  and the files of an export. The texts written into labels and entry fields of the
  window are not recorded.
\<close>

datatype event =
    ShowError string string
  | ShowWarning string string
  | ShowInfo string string
  | CanvasDraw render
  | MakeDirs string
  | SaveFig string render
  | ToCsv string table
  | ToExcel string table
  | WriterClose

definition nl :: string where
  "nl = [char_of (10 :: nat)]"

text \<open>
  \<^verbatim>\<open>
  def refresh_sheet_ui():
      if not S.has_data(): return
      name = S.sheets[S.idx]
      df = S.dfs[name]
      la, lb = S.labels[name]
      ...
      setA, setB, uA, uB, sh = compute_sets(df.iloc[:,0], df.iloc[:,1])
      ...
      draw_symmetric(ax, setA, setB, la, lb, S.colorA, S.colorB, S.alpha, S.label_y)
      canvas.draw()
  \<close>
  The result is the events and the exception that ended the call, if any.
\<close>

definition iloc_col :: "'v dataframe \<Rightarrow> nat \<Rightarrow> exn + 'v series" where
  "iloc_col df i =
     (if i < length df then Inr (snd (df ! i))
      else Inl (IndexError ''single positional indexer is out-of-bounds''))"

definition refresh_sheet_ui :: "('v \<Rightarrow> string) \<Rightarrow> 'v AppState \<Rightarrow> event list \<times> exn option" where
  "refresh_sheet_ui to_str S =
     (if \<not> has_data S then ([], None)
      else case py_index (sheets S) (idx S) of
        Inl e \<Rightarrow> ([], Some e)
      | Inr name \<Rightarrow>
     (case dict_lookup (dfs S) name of
        Inl e \<Rightarrow> ([], Some e)
      | Inr df \<Rightarrow>
     (case dict_lookup (labels S) name of
        Inl e \<Rightarrow> ([], Some e)
      | Inr lab \<Rightarrow>
     (case iloc_col df 0 of
        Inl e \<Rightarrow> ([], Some e)
      | Inr cA \<Rightarrow>
     (case iloc_col df 1 of
        Inl e \<Rightarrow> ([], Some e)
      | Inr cB \<Rightarrow>
         (case compute_sets to_str cA cB of
            (setA, setB, uA, uB, sh) \<Rightarrow>
              ([CanvasDraw (draw_symmetric setA setB (fst lab) (snd lab)
                  (colorA S) (colorB S) (alpha S) (label_y S))], None)))))))"

section \<open>Loading a workbook\<close>

text \<open>
  What the file dialog and pandas give: the chosen path (empty when the dialog is
  cancelled), and the outcome of \<open>pd.ExcelFile(path)\<close>: an exception, or the worksheets in
  the order of \<open>wb.sheet_names\<close>, each with the outcome of \<open>wb.parse(name)\<close>.
  \<^verbatim>\<open>
          for name in wb.sheet_names:
              df = wb.parse(name)
              if df.shape[1] >= 2:
                  S.sheets.append(name)
                  S.dfs[name] = df
                  hdrA, hdrB = str(df.columns[0]), str(df.columns[1])
                  S.headers[name] = (hdrA, hdrB)
                  S.labels[name]  = [hdrA, hdrB]
  \<close>
  An exception of \<open>parse\<close> ends the loop with the state as the earlier rounds left it.
\<close>

type_synonym 'v workbook = "(string \<times> (exn + 'v dataframe)) list"

fun load_sheets ::
  "('v \<Rightarrow> string) \<Rightarrow> 'v AppState \<Rightarrow> 'v workbook \<Rightarrow> 'v AppState \<times> exn option" where
  "load_sheets to_str S [] = (S, None)"
| "load_sheets to_str S ((name, parsed) # rest) =
     (case parsed of
        Inl e \<Rightarrow> (S, Some e)
      | Inr df \<Rightarrow>
          if length df \<ge> 2 then
            (let hdrA = to_str (fst (df ! 0)); hdrB = to_str (fst (df ! 1))
             in load_sheets to_str
                  (S\<lparr> sheets := sheets S @ [name],
                      dfs := AList.update name df (dfs S),
                      headers := AList.update name (hdrA, hdrB) (headers S),
                      labels := AList.update name (hdrA, hdrB) (labels S) \<rparr>) rest)
          else load_sheets to_str S rest)"

text \<open>A worksheet that is read without an exception and has fewer than two columns.\<close>

definition lacks_two_columns :: "string \<times> (exn + 'v dataframe) \<Rightarrow> bool" where
  "lacks_two_columns sh = (case snd sh of Inl e \<Rightarrow> False | Inr df \<Rightarrow> length df < 2)"

definition no_usable_sheets :: event where
  "no_usable_sheets =
     ShowError ''No usable sheets'' ''No sheets with at least two columns (A & B) found.''"

text \<open>
  \<^verbatim>\<open>
  def load_workbook():
      path = filedialog.askopenfilename(...)
      if not path:
          return
      try:
          wb = pd.ExcelFile(path)
          S.wb_path = path
          S.sheets = []
          S.dfs.clear()
          S.labels.clear()
          S.headers.clear()
          for name in wb.sheet_names: ...
          if not S.sheets:
              messagebox.showerror("No usable sheets", ...)
              return
          S.idx = 0
          refresh_sheet_ui()
          messagebox.showinfo("Loaded", f"Loaded {os.path.basename(path)}\n"
                                        f"{len(S.sheets)} sheet(s) ready.")
      except Exception as e:
          messagebox.showerror("Error loading workbook", str(e))
  \<close>
\<close>

definition load_workbook ::
  "('v \<Rightarrow> string) \<Rightarrow> 'v AppState \<Rightarrow> string \<Rightarrow> exn + 'v workbook \<Rightarrow> 'v AppState \<times> event list" where
  "load_workbook to_str S path excel =
     (if path = [] then (S, [])
      else case excel of
        Inl e \<Rightarrow> (S, [ShowError ''Error loading workbook'' (exn_msg e)])
      | Inr wb \<Rightarrow>
         (let S1 = S\<lparr> wb_path := Some path, sheets := [], dfs := [], labels := [], headers := [] \<rparr>
          in case load_sheets to_str S1 wb of
               (S2, Some e) \<Rightarrow> (S2, [ShowError ''Error loading workbook'' (exn_msg e)])
             | (S2, None) \<Rightarrow>
                 if sheets S2 = [] then (S2, [no_usable_sheets])
                 else
                   (let S3 = S2\<lparr> idx := 0 \<rparr>
                    in case refresh_sheet_ui to_str S3 of
                         (evs, Some e) \<Rightarrow>
                           (S3, evs @ [ShowError ''Error loading workbook'' (exn_msg e)])
                       | (evs, None) \<Rightarrow>
                           (S3, evs @ [ShowInfo ''Loaded''
                              (''Loaded '' @ os_path_basename path @ nl
                                @ str_nat (length (sheets S3)) @ '' sheet(s) ready.'')]))))"

section \<open>Labels, style and navigation\<close>

text \<open>
  The callbacks below are run by the window's event loop; an exception that leaves one
  of them ends that callback only. Each returns the new state, the events and that
  exception, if any.
  \<^verbatim>\<open>
  def apply_label_changes():
      if not S.has_data(): return
      name = S.sheets[S.idx]
      la = entry_labelA.get().strip() or S.headers[name][0]
      lb = entry_labelB.get().strip() or S.headers[name][1]
      S.labels[name] = [la, lb]
      refresh_sheet_ui()
  \<close>
\<close>

definition apply_label_changes ::
  "('v \<Rightarrow> string) \<Rightarrow> 'v AppState \<Rightarrow> string \<Rightarrow> string \<Rightarrow> 'v AppState \<times> event list \<times> exn option" where
  "apply_label_changes to_str S entryA entryB =
     (if \<not> has_data S then (S, [], None)
      else case py_index (sheets S) (idx S) of
        Inl e \<Rightarrow> (S, [], Some e)
      | Inr name \<Rightarrow>
     (case (if py_strip entryA \<noteq> [] then Inr (py_strip entryA)
            else map_sum id fst (dict_lookup (headers S) name)) of
        Inl e \<Rightarrow> (S, [], Some e)
      | Inr la \<Rightarrow>
     (case (if py_strip entryB \<noteq> [] then Inr (py_strip entryB)
            else map_sum id snd (dict_lookup (headers S) name)) of
        Inl e \<Rightarrow> (S, [], Some e)
      | Inr lb \<Rightarrow>
         (let S1 = S\<lparr> labels := AList.update name (la, lb) (labels S) \<rparr>
          in case refresh_sheet_ui to_str S1 of (evs, r) \<Rightarrow> (S1, evs, r)))))"

text \<open>
  \<^verbatim>\<open>
  def reset_labels_to_headers():
      if not S.has_data(): return
      name = S.sheets[S.idx]
      S.labels[name] = list(S.headers[name])
      refresh_sheet_ui()
  \<close>
\<close>

definition reset_labels_to_headers ::
  "('v \<Rightarrow> string) \<Rightarrow> 'v AppState \<Rightarrow> 'v AppState \<times> event list \<times> exn option" where
  "reset_labels_to_headers to_str S =
     (if \<not> has_data S then (S, [], None)
      else case py_index (sheets S) (idx S) of
        Inl e \<Rightarrow> (S, [], Some e)
      | Inr name \<Rightarrow>
     (case dict_lookup (headers S) name of
        Inl e \<Rightarrow> (S, [], Some e)
      | Inr h \<Rightarrow>
         (let S1 = S\<lparr> labels := AList.update name h (labels S) \<rparr>
          in case refresh_sheet_ui to_str S1 of (evs, r) \<Rightarrow> (S1, evs, r))))"

text \<open>
  \<^verbatim>\<open>
  def update_alpha_labely():
      try:
          a = float(entry_alpha.get())
          ly = float(entry_labely.get())
          if not (0.0 <= a <= 1.0): raise ValueError
          if ly < 0.9 or ly > 1.6:   raise ValueError
          S.alpha = a
          S.label_y = ly
          refresh_sheet_ui()
      except Exception:
          messagebox.showerror("Invalid values", "Alpha must be 0-1 and label height ~0.9-1.6")
  \<close>
  The two arguments are the outcomes of \<open>float(...)\<close> on the two entry fields: the
  \<open>ValueError\<close> of a text that is no number, or the float. (\<open>float("nan")\<close> and
  \<open>float("inf")\<close> are floats.) The dashes of the message are written as hyphens here.
\<close>

definition invalid_values :: event where
  "invalid_values =
     ShowError ''Invalid values'' ''Alpha must be 0-1 and label height ~0.9-1.6''"

definition update_alpha_labely ::
  "('v \<Rightarrow> string) \<Rightarrow> 'v AppState \<Rightarrow> exn + pyfloat \<Rightarrow> exn + pyfloat \<Rightarrow> 'v AppState \<times> event list" where
  "update_alpha_labely to_str S entry_alpha entry_labely =
     (case entry_alpha of
        Inl e \<Rightarrow> (S, [invalid_values])
      | Inr a \<Rightarrow>
     (case entry_labely of
        Inl e \<Rightarrow> (S, [invalid_values])
      | Inr ly \<Rightarrow>
          if \<not> (float_le (Fin 0) a \<and> float_le a (Fin 1)) then (S, [invalid_values])
          else if float_lt ly lit_0_9 \<or> float_lt lit_1_6 ly then (S, [invalid_values])
          else
            (let S1 = S\<lparr> alpha := a, label_y := ly \<rparr>
             in case refresh_sheet_ui to_str S1 of
                  (evs, None) \<Rightarrow> (S1, evs)
                | (evs, Some e) \<Rightarrow> (S1, evs @ [invalid_values]))))"

text \<open>
  \<^verbatim>\<open>
  def prev_sheet():
      if not S.has_data(): return
      S.idx = (S.idx - 1) % len(S.sheets)
      refresh_sheet_ui()

  def next_sheet():
      if not S.has_data(): return
      S.idx = (S.idx + 1) % len(S.sheets)
      refresh_sheet_ui()
  \<close>
  Python's \<open>%\<close> with a positive divisor is \<^const>\<open>modulo\<close> on \<^typ>\<open>int\<close>; with
  divisor zero it raises.
\<close>

definition prev_sheet ::
  "('v \<Rightarrow> string) \<Rightarrow> 'v AppState \<Rightarrow> 'v AppState \<times> event list \<times> exn option" where
  "prev_sheet to_str S =
     (if \<not> has_data S then (S, [], None)
      else if length (sheets S) = 0
        then (S, [], Some (OtherError ''integer modulo by zero''))
      else
        (let S1 = S\<lparr> idx := (idx S - 1) mod int (length (sheets S)) \<rparr>
         in case refresh_sheet_ui to_str S1 of (evs, r) \<Rightarrow> (S1, evs, r)))"

definition next_sheet ::
  "('v \<Rightarrow> string) \<Rightarrow> 'v AppState \<Rightarrow> 'v AppState \<times> event list \<times> exn option" where
  "next_sheet to_str S =
     (if \<not> has_data S then (S, [], None)
      else if length (sheets S) = 0
        then (S, [], Some (OtherError ''integer modulo by zero''))
      else
        (let S1 = S\<lparr> idx := (idx S + 1) mod int (length (sheets S)) \<rparr>
         in case refresh_sheet_ui to_str S1 of (evs, r) \<Rightarrow> (S1, evs, r)))"

section \<open>Batch export\<close>

text \<open>
  The file system and the Excel writer, as the export meets them: each operation gives
  the exception it raises, or \<open>None\<close> when it succeeds.
\<close>

record env =
  makedirs_err :: "string \<Rightarrow> exn option"
  writer_err :: "string \<Rightarrow> exn option"
  savefig_err :: "string \<Rightarrow> exn option"
  to_csv_err :: "string \<Rightarrow> exn option"
  to_excel_err :: "string \<Rightarrow> exn option"
  close_err :: "exn option"

text \<open>
  The name of a worksheet's section in the combined workbook:
  \<open>sanitize_filename(name)[:31] or f"Sheet{done+1}"\<close>.
\<close>

definition safe_sheet :: "string \<Rightarrow> nat \<Rightarrow> string" where
  "safe_sheet name done =
     (let t = take 31 (sanitize_filename (Some name))
      in if t \<noteq> [] then t else ''Sheet'' @ str_nat (done + 1))"

definition file_base :: "string \<Rightarrow> string \<Rightarrow> string \<Rightarrow> string \<Rightarrow> string" where
  "file_base name la lb ts =
     sanitize_filename (Some name) @ ''__'' @ sanitize_filename (Some la) @ ''_vs_''
       @ sanitize_filename (Some lb) @ ''_'' @ ts"

text \<open>
  One round of the loop of \<open>save_all_sheets\<close>, from the count \<open>done\<close> and the events so
  far to the count, the events and the exception that ended the loop, if any.
  \<^verbatim>\<open>
      done = 0
      for name in S.sheets:
          df = S.dfs[name]
          if df.shape[1] < 2: continue
          la, lb = S.labels[name]
          setA, setB, uA, uB, sh = compute_sets(df.iloc[:,0], df.iloc[:,1])
          la_safe = sanitize_filename(la); lb_safe = sanitize_filename(lb)
          base = f"{sanitize_filename(name)}__{la_safe}_vs_{lb_safe}_{ts}"
          fig2, ax2 = plt.subplots(figsize=(6,6))
          draw_symmetric(ax2, setA, setB, la, lb, S.colorA, S.colorB, S.alpha, S.label_y)
          png_path = os.path.join(base_dir, base + ".png")
          fig2.savefig(png_path, dpi=150, bbox_inches="tight")
          plt.close(fig2)
          csv_path = os.path.join(base_dir, base + ".csv")
          df_out = to_results_df(la, lb, uA, uB, sh)
          df_out.to_csv(csv_path, index=False)
          if writer is not None:
              safe_sheet = sanitize_filename(name)[:31] or f"Sheet{done+1}"
              try:
                  df_out.to_excel(writer, sheet_name=safe_sheet, index=False)
              except Exception:
                  pass
          done += 1
  \<close>
\<close>

fun save_loop ::
  "('v \<Rightarrow> string) \<Rightarrow> env \<Rightarrow> 'v AppState \<Rightarrow> bool \<Rightarrow> string \<Rightarrow> string \<Rightarrow> string list
    \<Rightarrow> nat \<Rightarrow> event list \<Rightarrow> nat \<times> event list \<times> exn option" where
  "save_loop to_str E S writer base_dir ts [] done evs = (done, evs, None)"
| "save_loop to_str E S writer base_dir ts (name # rest) done evs =
     (case dict_lookup (dfs S) name of
        Inl e \<Rightarrow> (done, evs, Some e)
      | Inr df \<Rightarrow>
          if length df < 2 then save_loop to_str E S writer base_dir ts rest done evs
          else
     (case dict_lookup (labels S) name of
        Inl e \<Rightarrow> (done, evs, Some e)
      | Inr lab \<Rightarrow>
     (case compute_sets to_str (snd (df ! 0)) (snd (df ! 1)) of
        (setA, setB, uA, uB, sh) \<Rightarrow>
     (let la = fst lab; lb = snd lab;
          base = file_base name la lb ts;
          png_path = os_path_join base_dir (base @ ''.png'');
          csv_path = os_path_join base_dir (base @ ''.csv'')
      in case savefig_err E png_path of
        Some e \<Rightarrow> (done, evs, Some e)
      | None \<Rightarrow>
     (let evs1 = evs @ [SaveFig png_path
            (draw_symmetric setA setB la lb (colorA S) (colorB S) (alpha S) (label_y S))]
      in case to_results_df la lb uA uB sh of
        Inl e \<Rightarrow> (done, evs1, Some e)
      | Inr df_out \<Rightarrow>
     (case to_csv_err E csv_path of
        Some e \<Rightarrow> (done, evs1, Some e)
      | None \<Rightarrow>
     (let evs2 = evs1 @ [ToCsv csv_path df_out];
          evs3 = (if writer \<and> to_excel_err E (safe_sheet name done) = None
                  then evs2 @ [ToExcel (safe_sheet name done) df_out] else evs2)
      in save_loop to_str E S writer base_dir ts rest (done + 1) evs3)))))))"

definition openpyxl_warning :: event where
  "openpyxl_warning =
     ShowWarning ''Combined Excel''
       (''openpyxl not available; skipping combined workbook.'' @ nl
         @ ''Run: pip install openpyxl'')"

text \<open>
  \<^verbatim>\<open>
  def save_all_sheets():
      if not S.has_data(): return
      ts = dt.datetime.now().strftime("%Y%m%d-%H%M%S")
      base_dir = os.path.join(os.path.dirname(S.wb_path), "Venn_Outputs")
      os.makedirs(base_dir, exist_ok=True)
      combined = combined_var.get() == 1
      writer = None
      xlsx_path = None
      if combined:
          try:
              xlsx_path = os.path.join(base_dir, f"venn_batch_results_{ts}.xlsx")
              writer = pd.ExcelWriter(xlsx_path, engine="openpyxl")
          except Exception:
              writer = None
              messagebox.showwarning("Combined Excel", "openpyxl not available; ...")
      done = 0
      for name in S.sheets: ...
      if writer is not None:
          try:
              writer.close()
              messagebox.showinfo("Saved", f"Saved {done} sheet(s).\nCombined workbook:\n{xlsx_path}")
          except Exception:
              messagebox.showwarning("Combined Excel", "Failed to finalize combined workbook.")
      else:
          messagebox.showinfo("Saved", f"Saved {done} sheet(s) PNG+CSV in:\n{base_dir}")
  \<close>
  \<open>combined\<close> is the state of the check box and \<open>ts\<close> the time stamp of the call.
\<close>

definition save_all_sheets ::
  "('v \<Rightarrow> string) \<Rightarrow> env \<Rightarrow> 'v AppState \<Rightarrow> bool \<Rightarrow> string \<Rightarrow> event list \<times> exn option" where
  "save_all_sheets to_str E S combined ts =
     (if \<not> has_data S then ([], None)
      else case wb_path S of
        None \<Rightarrow> ([], Some (TypeError ''expected str, bytes or os.PathLike object, not NoneType''))
      | Some p \<Rightarrow>
     (let base_dir = os_path_join (os_path_dirname p) ''Venn_Outputs''
      in case makedirs_err E base_dir of
        Some e \<Rightarrow> ([], Some e)
      | None \<Rightarrow>
     (let xlsx_path = os_path_join base_dir (''venn_batch_results_'' @ ts @ ''.xlsx'');
          writer = (combined \<and> writer_err E xlsx_path = None);
          evs0 = [MakeDirs base_dir]
                 @ (if combined \<and> writer_err E xlsx_path \<noteq> None then [openpyxl_warning] else [])
      in case save_loop to_str E S writer base_dir ts (sheets S) 0 evs0 of
        (done, evs, Some e) \<Rightarrow> (evs, Some e)
      | (done, evs, None) \<Rightarrow>
          if writer then
            (case close_err E of
               None \<Rightarrow>
                 (evs @ [WriterClose, ShowInfo ''Saved''
                    (''Saved '' @ str_nat done @ '' sheet(s).'' @ nl @ ''Combined workbook:'' @ nl
                      @ xlsx_path)], None)
             | Some e \<Rightarrow>
                 (evs @ [ShowWarning ''Combined Excel'' ''Failed to finalize combined workbook.''],
                  None))
          else
            (evs @ [ShowInfo ''Saved''
               (''Saved '' @ str_nat done @ '' sheet(s) PNG+CSV in:'' @ nl @ base_dir)], None))))"

text \<open>
  A session is well formed when every listed worksheet has its data, with at least two
  columns, and its labels; \<^const>\<open>load_workbook\<close> leaves such a session.
\<close>

definition sheet_ok :: "'v AppState \<Rightarrow> string \<Rightarrow> bool" where
  "sheet_ok S name =
     (case map_of (dfs S) name of
        None \<Rightarrow> False
      | Some df \<Rightarrow> 2 \<le> length df \<and> map_of (labels S) name \<noteq> None)"

definition session_ok :: "'v AppState \<Rightarrow> bool" where
  "session_ok S = list_all (sheet_ok S) (sheets S)"

text \<open>
  What one round of the loop writes for a worksheet of a well-formed session when the
  file system accepts both files: the image and the tabular file.
\<close>

definition sheet_exports ::
  "('v \<Rightarrow> string) \<Rightarrow> 'v AppState \<Rightarrow> string \<Rightarrow> string \<Rightarrow> string \<Rightarrow> event list" where
  "sheet_exports to_str S base_dir ts name =
     (case (map_of (dfs S) name, map_of (labels S) name) of
        (Some df, Some lab) \<Rightarrow>
          (case compute_sets to_str (snd (df ! 0)) (snd (df ! 1)) of
             (setA, setB, uA, uB, sh) \<Rightarrow>
               (case to_results_df (fst lab) (snd lab) uA uB sh of
                  Inr t \<Rightarrow>
                    [SaveFig (os_path_join base_dir (file_base name (fst lab) (snd lab) ts @ ''.png''))
                       (draw_symmetric setA setB (fst lab) (snd lab)
                          (colorA S) (colorB S) (alpha S) (label_y S)),
                     ToCsv (os_path_join base_dir (file_base name (fst lab) (snd lab) ts @ ''.csv'')) t]
                | Inl e \<Rightarrow> []))
      | _ \<Rightarrow> [])"

fun is_warning :: "event \<Rightarrow> bool" where
  "is_warning (ShowWarning t m) = True"
| "is_warning _ = False"

fun is_savefig :: "event \<Rightarrow> bool" where
  "is_savefig (SaveFig p r) = True"
| "is_savefig _ = False"

fun is_to_csv :: "event \<Rightarrow> bool" where
  "is_to_csv (ToCsv p t) = True"
| "is_to_csv _ = False"

fun is_combined :: "event \<Rightarrow> bool" where
  "is_combined (ToExcel n t) = True"
| "is_combined WriterClose = True"
| "is_combined _ = False"

section \<open>A workbook and an environment to run the model on\<close>

definition example_workbook :: "string workbook" where
  "example_workbook =
     [(''S1'', Inr [(''A'', [Some ''x'', None]), (''B'', [Some ''x'', Some ''y''])]),
      (''S2'', Inr [(''C'', [Some ''p'']), (''D'', [Some ''q''])]),
      (''S3'', Inr [(''E'', [Some ''u'', Some ''v'']), (''F'', [Some ''v''])])]"

definition example_session :: "string AppState" where
  "example_session = fst (load_workbook id init_state ''/d/w.xlsx'' (Inr example_workbook))"

text \<open>A workbook whose only worksheet has one column.\<close>

definition narrow_workbook :: "string workbook" where
  "narrow_workbook = [(''T1'', Inr [(''A'', [Some ''x''])])]"

text \<open>A workbook whose first worksheet is read and whose second makes \<open>parse\<close> raise.\<close>

definition broken_workbook :: "string workbook" where
  "broken_workbook =
     [(''T1'', Inr [(''A'', [Some ''x'']), (''B'', [])]),
      (''T2'', Inl (OtherError ''bad sheet''))]"

text \<open>An environment without \<open>openpyxl\<close>, where every file can be written.\<close>

definition no_openpyxl :: env where
  "no_openpyxl = \<lparr> makedirs_err = (\<lambda>p. None),
     writer_err = (\<lambda>p. Some (OtherError ''No module named openpyxl'')),
     savefig_err = (\<lambda>p. None), to_csv_err = (\<lambda>p. None), to_excel_err = (\<lambda>n. None),
     close_err = None \<rparr>"

section \<open>Properties of the helpers\<close>

lemma safe_char_underscore: "safe_char CHR ''_''"
  by (simp add: safe_char_def re_word_def)

lemma re_sub_bad_safe: "c \<in> set (re_sub_bad s) \<Longrightarrow> safe_char c"
proof (induction s arbitrary: c rule: re_sub_bad.induct)
  case 1
  then show ?case by simp
next
  case (2 d ds)
  show ?case
  proof (cases "bad_char d")
    case True
    from "2.prems" True have "c = CHR ''_'' \<or> c \<in> set (re_sub_bad (dropWhile bad_char ds))"
      by simp
    then show ?thesis
      using "2.IH"(1)[OF True] safe_char_underscore by blast
  next
    case False
    from "2.prems" False have "c = d \<or> c \<in> set (re_sub_bad ds)"
      by simp
    then show ?thesis
      using "2.IH"(2)[OF False] False unfolding bad_char_def by blast
  qed
qed

lemma re_sub_bad_safe_prefix: "list_all safe_char u \<Longrightarrow> re_sub_bad (u @ t) = u @ re_sub_bad t"
  by (induction u) (simp_all add: bad_char_def)

lemma re_sub_bad_id: "list_all safe_char v \<Longrightarrow> re_sub_bad v = v"
  using re_sub_bad_safe_prefix[of v "[]"] by simp

lemma re_sub_bad_run:
  assumes "r \<noteq> []" "list_all bad_char r" "t = [] \<or> safe_char (hd t)"
  shows "re_sub_bad (r @ t) = CHR ''_'' # re_sub_bad t"
proof -
  obtain c r' where r: "r = c # r'" using assms(1) by (cases r) auto
  have bc: "bad_char c" and br: "\<And>x. x \<in> set r' \<Longrightarrow> bad_char x"
    using assms(2) by (simp_all add: r list_all_iff)
  have "dropWhile bad_char (r' @ t) = dropWhile bad_char t"
    using br by (rule dropWhile_append2)
  also have "\<dots> = t" using assms(3) by (cases t) (auto simp: bad_char_def)
  finally show ?thesis using bc by (simp add: r)
qed

lemma sanitize_filename_chars: "list_all safe_char (sanitize_filename s)"
proof -
  have "\<And>c. c \<in> set (sanitize_filename s) \<Longrightarrow> safe_char c"
    unfolding sanitize_filename_def Let_def
    by (auto dest: in_set_takeD re_sub_bad_safe split: if_splits)
  then show ?thesis by (simp add: list_all_iff)
qed

lemma sanitize_filename_length: "length (sanitize_filename s) \<le> 60"
  by (simp add: sanitize_filename_def Let_def)

lemma sanitize_filename_take: "sanitize_filename (Some t) = take 60 (re_sub_bad (py_strip t))"
  by (simp add: sanitize_filename_def Let_def)

lemma segments_text_head:
  assumes "list_all run_segment segs" and "w = [] \<or> safe_char (hd w)"
  shows "segments_text segs @ w = [] \<or> safe_char (hd (segments_text segs @ w))"
proof (cases segs)
  case Nil
  with assms(2) show ?thesis by (simp add: segments_text_def)
next
  case (Cons ur rest)
  with assms(1) have "fst ur \<noteq> []" "list_all safe_char (fst ur)"
    by (simp_all add: run_segment_def)
  then have "safe_char (hd (fst ur))" by (cases "fst ur") simp_all
  with \<open>fst ur \<noteq> []\<close> show ?thesis by (simp add: Cons segments_text_def)
qed

lemma re_sub_bad_segments:
  assumes "list_all run_segment segs" and "w = [] \<or> safe_char (hd w)"
  shows "re_sub_bad (segments_text segs @ w) = segments_replaced segs @ re_sub_bad w"
  using assms(1)
proof (induction segs)
  case Nil
  then show ?case by (simp add: segments_text_def segments_replaced_def)
next
  case (Cons ur segs)
  then have seg: "run_segment ur" and rest: "list_all run_segment segs" by simp_all
  let ?rest = "segments_text segs @ w"
  have hd: "?rest = [] \<or> safe_char (hd ?rest)"
    using segments_text_head[OF rest assms(2)] .
  have "segments_text (ur # segs) @ w = fst ur @ (snd ur @ ?rest)"
    by (simp add: segments_text_def)
  then have "re_sub_bad (segments_text (ur # segs) @ w) = fst ur @ re_sub_bad (snd ur @ ?rest)"
    using seg by (simp add: run_segment_def re_sub_bad_safe_prefix)
  also have "re_sub_bad (snd ur @ ?rest) = CHR ''_'' # re_sub_bad ?rest"
    using seg hd by (intro re_sub_bad_run) (simp_all add: run_segment_def)
  also have "re_sub_bad ?rest = segments_replaced segs @ re_sub_bad w"
    using Cons.IH[OF rest] .
  finally show ?case by (simp add: segments_replaced_def)
qed

lemma string_runs:
  "\<exists>r0 segs v. x = r0 @ segments_text segs @ v \<and> list_all bad_char r0
      \<and> list_all run_segment segs \<and> list_all safe_char v"
proof (induction x)
  case Nil
  have "[] = [] @ segments_text [] @ [] \<and> list_all bad_char [] \<and> list_all run_segment []
      \<and> list_all safe_char []"
    by (simp add: segments_text_def)
  then show ?case by blast
next
  case (Cons c x)
  then obtain r0 segs v where x: "x = r0 @ segments_text segs @ v" and r0: "list_all bad_char r0"
    and segs: "list_all run_segment segs" and v: "list_all safe_char v"
    by blast
  show ?case
  proof (cases "bad_char c")
    case True
    have "c # x = (c # r0) @ segments_text segs @ v \<and> list_all bad_char (c # r0)
        \<and> list_all run_segment segs \<and> list_all safe_char v"
      using x r0 segs v True by simp
    then show ?thesis by blast
  next
    case False
    then have sc: "safe_char c" by (simp add: bad_char_def)
    show ?thesis
    proof (cases "r0 = []")
      case r0e: True
      show ?thesis
      proof (cases segs)
        case Nil
        have "c # x = [] @ segments_text [] @ (c # v) \<and> list_all bad_char []
            \<and> list_all run_segment [] \<and> list_all safe_char (c # v)"
          using x v sc r0e Nil by (simp add: segments_text_def)
        then show ?thesis by blast
      next
        case (Cons ur rest)
        have "c # x = [] @ segments_text ((c # fst ur, snd ur) # rest) @ v \<and> list_all bad_char []
            \<and> list_all run_segment ((c # fst ur, snd ur) # rest) \<and> list_all safe_char v"
          using x v sc r0e Cons segs by (simp add: segments_text_def run_segment_def)
        then show ?thesis by blast
      qed
    next
      case r0n: False
      have "c # x = [] @ segments_text (([c], r0) # segs) @ v \<and> list_all bad_char []
          \<and> list_all run_segment (([c], r0) # segs) \<and> list_all safe_char v"
        using x v sc r0n r0 segs by (simp add: segments_text_def run_segment_def)
      then show ?thesis by blast
    qed
  qed
qed

section \<open>Claims about the filename helper\<close>

text \<open>
  Claim C7, as the code has it. The result of \<open>sanitize_filename\<close> consists of characters
  of the set (word characters, hyphen, period, space) only and has at most 60 characters.
  Whitespace around the input is trimmed first, and the replacement in the trimmed input
  is by runs, not character by character: when the trimmed input \<open>py_strip t\<close> is a run
  \<open>r0\<close> of characters outside the set (possibly empty), then segments each made of a
  non-empty part inside the set and a non-empty run outside it, then a part \<open>v\<close> inside
  the set (possibly empty), the result has one underscore for \<open>r0\<close> if it is not empty,
  then every segment with one underscore in the place of its run, then \<open>v\<close>, cut to 60
  characters. Every string is of this form (lemma \<open>string_runs\<close>).
\<close>

theorem sanitize_filename_amended:
  "list_all safe_char (sanitize_filename s) \<and> length (sanitize_filename s) \<le> 60 \<and>
   (\<forall>r0 segs v. py_strip t = r0 @ segments_text segs @ v \<and> list_all bad_char r0
        \<and> list_all run_segment segs \<and> list_all safe_char v
      \<longrightarrow> sanitize_filename (Some t)
            = take 60 ((if r0 = [] then [] else ''_'') @ segments_replaced segs @ v))"
proof (intro conjI allI impI)
  show "list_all safe_char (sanitize_filename s)" by (rule sanitize_filename_chars)
  show "length (sanitize_filename s) \<le> 60" by (rule sanitize_filename_length)
next
  fix r0 segs v
  assume h: "py_strip t = r0 @ segments_text segs @ v \<and> list_all bad_char r0
        \<and> list_all run_segment segs \<and> list_all safe_char v"
  have v: "v = [] \<or> safe_char (hd v)" using h by (cases v) auto
  have body: "re_sub_bad (segments_text segs @ v) = segments_replaced segs @ v"
    using re_sub_bad_segments[of segs v] h v by (simp add: re_sub_bad_id)
  have hd: "segments_text segs @ v = [] \<or> safe_char (hd (segments_text segs @ v))"
    using segments_text_head[of segs v] h v by blast
  have "re_sub_bad (r0 @ segments_text segs @ v)
      = (if r0 = [] then [] else ''_'') @ segments_replaced segs @ v"
  proof (cases "r0 = []")
    case True
    then show ?thesis using body by simp
  next
    case False
    with h hd have "re_sub_bad (r0 @ segments_text segs @ v)
        = CHR ''_'' # re_sub_bad (segments_text segs @ v)"
      by (intro re_sub_bad_run) simp_all
    with False body show ?thesis by simp
  qed
  then show "sanitize_filename (Some t)
            = take 60 ((if r0 = [] then [] else ''_'') @ segments_replaced segs @ v)"
    using h by (simp add: sanitize_filename_take)
qed

text \<open>
  The input \<open>a!!b/?c\<close> between a space and a tab: the whitespace around it is trimmed,
  and each of the runs \<open>!!\<close> and \<open>/?\<close> becomes one underscore.
\<close>

theorem sanitize_filename_amended_witness:
  "list_all safe_char (sanitize_filename (Some ('' a!!b/?c'' @ [CHR 0x09])))
    \<and> length (sanitize_filename (Some ('' a!!b/?c'' @ [CHR 0x09]))) \<le> 60
    \<and> sanitize_filename (Some ('' a!!b/?c'' @ [CHR 0x09])) = ''a_b_c''"
proof -
  note th = sanitize_filename_amended[of "Some ('' a!!b/?c'' @ [CHR 0x09])"
      "'' a!!b/?c'' @ [CHR 0x09]"]
  have s: "py_strip ('' a!!b/?c'' @ [CHR 0x09])
      = [] @ segments_text [(''a'', ''!!''), (''b'', ''/?'')] @ ''c''"
    by (simp add: py_strip_def isspace_def segments_text_def)
  have c: "list_all bad_char [] \<and> list_all run_segment [(''a'', ''!!''), (''b'', ''/?'')]
      \<and> list_all safe_char ''c''"
    by (simp add: run_segment_def bad_char_def safe_char_def re_word_def)
  from th have "py_strip ('' a!!b/?c'' @ [CHR 0x09])
        = [] @ segments_text [(''a'', ''!!''), (''b'', ''/?'')] @ ''c''
      \<and> list_all bad_char [] \<and> list_all run_segment [(''a'', ''!!''), (''b'', ''/?'')]
      \<and> list_all safe_char ''c''
    \<longrightarrow> sanitize_filename (Some ('' a!!b/?c'' @ [CHR 0x09]))
          = take 60 ((if [] = ([] :: string) then [] else ''_'')
              @ segments_replaced [(''a'', ''!!''), (''b'', ''/?'')] @ ''c'')"
    by blast
  with s c have "sanitize_filename (Some ('' a!!b/?c'' @ [CHR 0x09]))
          = take 60 ((if [] = ([] :: string) then [] else ''_'')
              @ segments_replaced [(''a'', ''!!''), (''b'', ''/?'')] @ ''c'')"
    by blast
  then have "sanitize_filename (Some ('' a!!b/?c'' @ [CHR 0x09])) = ''a_b_c''"
    by (simp add: segments_replaced_def)
  with th show ?thesis by blast
qed

text \<open>
  Claim C7 as the spec words it, "every character outside that set is replaced by an
  underscore", is \<^const>\<open>sanitize_spec\<close>. It fails in two ways. For \<open>a!!b\<close> the wording
  gives \<open>a__b\<close> and the code gives \<open>a_b\<close>: a run becomes one underscore. For \<open>a\<close>
  followed by a tab, a character outside the set, the wording gives \<open>a_\<close> and the code
  gives \<open>a\<close>: whitespace at the ends is trimmed, not replaced.
\<close>

theorem sanitize_filename_counterexample:
  "sanitize_filename (Some ''a!!b'') = ''a_b'' \<and> sanitize_spec ''a!!b'' = ''a__b''
   \<and> sanitize_filename (Some ''a!!b'') \<noteq> sanitize_spec ''a!!b''
   \<and> bad_char (CHR 0x09)
   \<and> sanitize_filename (Some (''a'' @ [CHR 0x09])) = ''a''
   \<and> sanitize_spec (''a'' @ [CHR 0x09]) = ''a_''
   \<and> sanitize_filename (Some (''a'' @ [CHR 0x09])) \<noteq> sanitize_spec (''a'' @ [CHR 0x09])"
  by (simp add: sanitize_filename_def sanitize_spec_def py_strip_def isspace_def bad_char_def
      safe_char_def re_word_def)

lemma py_strip_spaces: "list_all isspace w \<Longrightarrow> py_strip w = []"
proof -
  assume "list_all isspace w"
  then have d: "dropWhile isspace w = []"
    unfolding dropWhile_eq_Nil_conv list_all_iff .
  show ?thesis unfolding py_strip_def d by simp
qed

lemma dropWhile_spaces_append:
  "list_all isspace w \<Longrightarrow> dropWhile isspace (w @ t) = dropWhile isspace t"
  unfolding list_all_iff by (rule dropWhile_append2) blast

lemma py_strip_append_left: "list_all isspace w \<Longrightarrow> py_strip (w @ t) = py_strip t"
  by (simp add: py_strip_def dropWhile_spaces_append)

lemma py_strip_append_right:
  assumes "list_all isspace w"
  shows "py_strip (t @ w) = py_strip t"
proof (cases "list_all isspace t")
  case True
  with assms have "list_all isspace (t @ w)" by simp
  then show ?thesis using True by (simp add: py_strip_spaces)
next
  case False
  then have ex: "\<exists>x\<in>set t. \<not> isspace x" by (simp add: list_all_iff)
  then obtain x where "x \<in> set t" "\<not> isspace x" by blast
  then have "dropWhile isspace (t @ w) = dropWhile isspace t @ w"
    by (rule dropWhile_append1)
  then have "py_strip (t @ w) = rev (dropWhile isspace (rev w @ rev (dropWhile isspace t)))"
    by (simp add: py_strip_def)
  also have "\<dots> = rev (dropWhile isspace (rev (dropWhile isspace t)))"
    using assms dropWhile_spaces_append[of "rev w" "rev (dropWhile isspace t)"] by simp
  finally show ?thesis by (simp add: py_strip_def)
qed

lemma sanitize_filename_None: "sanitize_filename None = []"
  by (simp add: sanitize_filename_def py_strip_def)

text \<open>
  Claim C10. \<open>sanitize_filename\<close> trims before it replaces: whitespace around the input
  does not change the result (it is not turned into underscores), and an input of
  whitespace only, the empty string or \<open>None\<close> gives the empty string. For such a worksheet
  name the section name in the combined workbook is the positional fallback
  \<open>Sheet{done+1}\<close>.
\<close>

theorem sanitize_filename_trims:
  assumes "list_all isspace w1" and "list_all isspace w2"
  shows "sanitize_filename (Some (w1 @ t @ w2)) = sanitize_filename (Some t)
       \<and> sanitize_filename (Some w1) = []
       \<and> sanitize_filename None = []
       \<and> safe_sheet w1 done = ''Sheet'' @ str_nat (done + 1)"
proof -
  have a: "py_strip (w1 @ t @ w2) = py_strip t"
    using assms by (simp add: py_strip_append_left py_strip_append_right)
  have b: "sanitize_filename (Some w1) = []"
    using assms(1) by (simp add: sanitize_filename_take py_strip_spaces)
  show ?thesis
    using a b by (simp add: sanitize_filename_take sanitize_filename_None safe_sheet_def)
qed

text \<open>A name between a space and a tab followed by a space; the name of one space.\<close>

theorem sanitize_filename_trims_witness:
  "sanitize_filename (Some ('' '' @ ''a b'' @ [char_of (9::nat), CHR '' ''])) = ''a b''
     \<and> sanitize_filename (Some '' '') = []
     \<and> sanitize_filename None = []
     \<and> safe_sheet '' '' 2 = ''Sheet3''"
proof -
  have w: "list_all isspace '' ''" "list_all isspace [char_of (9::nat), CHR '' '']"
    by (simp_all add: isspace_def)
  have s: "sanitize_filename (Some ''a b'') = ''a b''"
    by (simp add: sanitize_filename_def py_strip_def isspace_def bad_char_def safe_char_def re_word_def)
  have n: "str_nat (2 + 1) = ''3''" by code_simp
  show ?thesis
    using sanitize_filename_trims[OF w, of "''a b''" 2] s n by simp
qed

section \<open>Claims about the set comparator\<close>

lemma set_dropna: "set (dropna xs) = {v. Some v \<in> set xs}"
  by (induction xs) (auto split: option.splits)

text \<open>
  Claim C1. For every pair of columns, the three lists that \<open>compute_sets\<close> returns are
  pairwise disjoint, and together they hold every element of the union of the two sets
  of non-missing, stringified values exactly once; the size of set A is the number of
  values unique to A plus the number of shared values, and likewise for B.
\<close>

theorem compute_sets_partition:
  assumes "compute_sets to_str seriesA seriesB = (setA, setB, unique_A, unique_B, shared)"
  shows "setA = set (map to_str (dropna seriesA)) \<and> setB = set (map to_str (dropna seriesB))
    \<and> set unique_A \<inter> set unique_B = {} \<and> set unique_A \<inter> set shared = {}
    \<and> set unique_B \<inter> set shared = {}
    \<and> set unique_A \<union> set unique_B \<union> set shared = setA \<union> setB
    \<and> distinct (unique_A @ unique_B @ shared)
    \<and> mset unique_A + mset unique_B + mset shared = mset_set (setA \<union> setB)
    \<and> card setA = length unique_A + length shared
    \<and> card setB = length unique_B + length shared"
proof -
  note eq = assms[unfolded compute_sets_def Let_def prod.inject]
  from eq have A: "setA = set (map to_str (dropna seriesA))"
    and B: "setB = set (map to_str (dropna seriesB))"
    by blast+
  from eq have uA: "unique_A = sorted_list_of_set (setA - setB)"
    and uB: "unique_B = sorted_list_of_set (setB - setA)"
    and sh: "shared = sorted_list_of_set (setA \<inter> setB)"
    unfolding A B by blast+
  have fA: "finite setA" and fB: "finite setB" by (simp_all add: A B)
  have sA: "set unique_A = setA - setB" and sB: "set unique_B = setB - setA"
    and sS: "set shared = setA \<inter> setB"
    using fA fB by (simp_all add: uA uB sh)
  have dA: "distinct unique_A" and dB: "distinct unique_B" and dS: "distinct shared"
    by (simp_all add: uA uB sh)
  have d: "distinct (unique_A @ unique_B @ shared)"
    using dA dB dS sA sB sS by auto
  have u: "set unique_A \<union> set unique_B \<union> set shared = setA \<union> setB"
    using sA sB sS by blast
  have "mset (unique_A @ unique_B @ shared) = mset_set (set (unique_A @ unique_B @ shared))"
    using d by (simp only: mset_set_set)
  then have m: "mset unique_A + mset unique_B + mset shared = mset_set (setA \<union> setB)"
    using u by (simp add: Un_assoc add.assoc)
  have cA: "card setA = length unique_A + length shared"
  proof -
    have "setA = (setA - setB) \<union> (setA \<inter> setB)" by blast
    then have "card setA = card (setA - setB) + card (setA \<inter> setB)"
      using fA card_Un_disjoint[of "setA - setB" "setA \<inter> setB"] by auto
    then show ?thesis by (simp add: uA sh)
  qed
  have cB: "card setB = length unique_B + length shared"
  proof -
    have "setB = (setB - setA) \<union> (setA \<inter> setB)" by blast
    then have "card setB = card (setB - setA) + card (setA \<inter> setB)"
      using fB card_Un_disjoint[of "setB - setA" "setA \<inter> setB"] by auto
    then show ?thesis by (simp add: uB sh)
  qed
  show ?thesis using A B sA sB sS u d m cA cB by blast
qed

text \<open>The example of the spec: columns \<open>a, b, b, c, missing\<close> and \<open>b, c, d\<close>.\<close>

theorem compute_sets_partition_witness:
  "compute_sets id [Some ''a'', Some ''b'', Some ''b'', Some ''c'', None] [Some ''b'', Some ''c'', Some ''d'']
     = (set [''a'', ''b'', ''b'', ''c''], set [''b'', ''c'', ''d''], [''a''], [''d''], [''b'', ''c''])
   \<and> set [''a''] \<inter> set [''d''] = {} \<and> set [''a''] \<inter> set [''b'', ''c''] = {}
   \<and> set [''d''] \<inter> set [''b'', ''c''] = {}
   \<and> set [''a''] \<union> set [''d''] \<union> set [''b'', ''c'']
        = set [''a'', ''b'', ''b'', ''c''] \<union> set [''b'', ''c'', ''d'']
   \<and> card (set [''a'', ''b'', ''b'', ''c'']) = length [''a''] + length [''b'', ''c'']
   \<and> card (set [''b'', ''c'', ''d'']) = length [''d''] + length [''b'', ''c'']"
proof -
  have uA: "sorted_list_of_set (set [''a'', ''b'', ''b'', ''c''] - set [''b'', ''c'', ''d'']) = [''a'']"
    by code_simp
  have uB: "sorted_list_of_set (set [''b'', ''c'', ''d''] - set [''a'', ''b'', ''b'', ''c'']) = [''d'']"
    by code_simp
  have sh: "sorted_list_of_set (set [''a'', ''b'', ''b'', ''c''] \<inter> set [''b'', ''c'', ''d'']) = [''b'', ''c'']"
    by code_simp
  have dA: "map id (dropna [Some ''a'', Some ''b'', Some ''b'', Some ''c'', None]) = [''a'', ''b'', ''b'', ''c'']"
    and dB: "map id (dropna [Some ''b'', Some ''c'', Some ''d'']) = [''b'', ''c'', ''d'']"
    by simp_all
  have e: "compute_sets id [Some ''a'', Some ''b'', Some ''b'', Some ''c'', None] [Some ''b'', Some ''c'', Some ''d'']
     = (set [''a'', ''b'', ''b'', ''c''], set [''b'', ''c'', ''d''], [''a''], [''d''], [''b'', ''c''])"
    unfolding compute_sets_def Let_def dA dB uA uB sh ..
  from compute_sets_partition[OF e] e show ?thesis by blast
qed

text \<open>
  Claim C4. For every pair of columns and every permutation of their rows,
  \<open>compute_sets\<close> returns the same result, and each of the three lists is sorted in
  ascending order of the strings.
\<close>

theorem compute_sets_order_independent:
  assumes "mset rows' = mset rows"
  shows "compute_sets to_str (map fst rows') (map snd rows')
           = compute_sets to_str (map fst rows) (map snd rows)
    \<and> (case compute_sets to_str (map fst rows) (map snd rows) of
          (setA, setB, unique_A, unique_B, shared) \<Rightarrow>
            sorted unique_A \<and> sorted unique_B \<and> sorted shared)"
proof -
  from assms have "set rows' = set rows" by (rule mset_eq_setD)
  then have "set (map fst rows') = set (map fst rows)" "set (map snd rows') = set (map snd rows)"
    by simp_all
  then have "set (dropna (map fst rows')) = set (dropna (map fst rows))"
    "set (dropna (map snd rows')) = set (dropna (map snd rows))"
    by (simp_all only: set_dropna)
  then have "set (map to_str (dropna (map fst rows'))) = set (map to_str (dropna (map fst rows)))"
    "set (map to_str (dropna (map snd rows'))) = set (map to_str (dropna (map snd rows)))"
    by (simp_all only: set_map)
  then show ?thesis
    by (simp add: compute_sets_def Let_def)
qed

text \<open>Three rows in two orders.\<close>

theorem compute_sets_order_independent_witness:
  "compute_sets id (map fst [(Some ''b'', Some ''c''), (None, Some ''b''), (Some ''a'', None)])
                   (map snd [(Some ''b'', Some ''c''), (None, Some ''b''), (Some ''a'', None)])
     = compute_sets id (map fst [(Some ''a'', None), (Some ''b'', Some ''c''), (None, Some ''b'')])
                       (map snd [(Some ''a'', None), (Some ''b'', Some ''c''), (None, Some ''b'')])
   \<and> (case compute_sets id (map fst [(Some ''a'', None), (Some ''b'', Some ''c''), (None, Some ''b'')])
                       (map snd [(Some ''a'', None), (Some ''b'', Some ''c''), (None, Some ''b'')]) of
        (setA, setB, unique_A, unique_B, shared) \<Rightarrow>
          (unique_A, unique_B, shared) = ([''a''], [''c''], [''b''])
          \<and> sorted unique_A \<and> sorted unique_B \<and> sorted shared)"
proof -
  have m: "mset [(Some ''b'', Some ''c''), (None, Some ''b''), (Some ''a'', None :: string option)]
         = mset [(Some ''a'', None), (Some ''b'', Some ''c''), (None, Some ''b'')]"
    by simp
  have e: "(case compute_sets id (map fst [(Some ''a'', None), (Some ''b'', Some ''c''), (None, Some ''b'')])
                       (map snd [(Some ''a'', None), (Some ''b'', Some ''c''), (None, Some ''b'')]) of
        (setA, setB, unique_A, unique_B, shared) \<Rightarrow>
          (unique_A, unique_B, shared)) = ([''a''], [''c''], [''b''])"
    by code_simp
  from compute_sets_order_independent[OF m, of id] e show ?thesis
    by (auto split: prod.splits)
qed

section \<open>Claims about the result table\<close>

text \<open>
  With two different labels the table has the three columns in the order unique to A,
  unique to B, shared; each has as many cells as the longest of the three lists, and
  the cells after a list's own are empty strings.
\<close>

lemma length_pad: "length L \<le> m \<Longrightarrow> length (pad m L) = m"
  by (simp add: pad_def)

lemma pad_nth:
  "i < m \<Longrightarrow> length L \<le> m \<Longrightarrow> pad m L ! i = (if i < length L then L ! i else '''')"
  by (simp add: pad_def nth_append)

lemma to_results_df_distinct_labels:
  assumes "la \<noteq> lb"
  shows "to_results_df la lb unique_A unique_B shared =
      Inr [(''Unique to '' @ la, pad (max (length unique_A) (max (length unique_B) (length shared))) unique_A),
           (''Unique to '' @ lb, pad (max (length unique_A) (max (length unique_B) (length shared))) unique_B),
           (''Shared'', pad (max (length unique_A) (max (length unique_B) (length shared))) shared)]"
  using assms
  by (simp add: to_results_df_def dict_literal_def pd_DataFrame_def Let_def length_pad)

lemma to_results_df_rectangular:
  assumes "la \<noteq> lb" and "m = max (length unique_A) (max (length unique_B) (length shared))"
  shows "\<exists>cA cB cS. to_results_df la lb unique_A unique_B shared =
             Inr [(''Unique to '' @ la, cA), (''Unique to '' @ lb, cB), (''Shared'', cS)]
          \<and> length cA = m \<and> length cB = m \<and> length cS = m
          \<and> take (length unique_A) cA = unique_A \<and> drop (length unique_A) cA = replicate (m - length unique_A) ''''
          \<and> take (length unique_B) cB = unique_B \<and> drop (length unique_B) cB = replicate (m - length unique_B) ''''
          \<and> take (length shared) cS = shared \<and> drop (length shared) cS = replicate (m - length shared) ''''"
  using to_results_df_distinct_labels[OF assms(1), of unique_A unique_B shared]
  by (simp add: assms(2) length_pad) (simp add: pad_def)

text \<open>
  Claim C3 says that equal labels give three columns, two of them with the same name.
  The code builds the table from a dict literal, and its second item has the key of the
  first: for every label \<open>l\<close> used twice the table has two columns, named
  \<open>Unique to l\<close> and \<open>Shared\<close>; the first holds the values unique to B, and the values
  unique to A are not in the table. No exception is raised.
\<close>

theorem to_results_df_equal_labels:
  "to_results_df l l unique_A unique_B shared =
      Inr [(''Unique to '' @ l, pad (max (length unique_A) (max (length unique_B) (length shared))) unique_B),
           (''Shared'', pad (max (length unique_A) (max (length unique_B) (length shared))) shared)]"
  by (simp add: to_results_df_def dict_literal_def pd_DataFrame_def Let_def length_pad)

text \<open>
  Claim C5 says that for all labels the table has three columns of equal length in the
  order unique to A, unique to B, shared. With both labels \<open>X\<close>, the lists \<open>a, b\<close>
  (unique to A), \<open>c\<close> (unique to B) and no shared value, the table of the code has two
  columns of two cells: \<open>c\<close> and a padding cell under \<open>Unique to X\<close>, two padding cells
  under \<open>Shared\<close>.
\<close>

theorem to_results_df_equal_labels_example:
  "to_results_df ''X'' ''X'' [''a'', ''b''] [''c''] [] =
      Inr [(''Unique to X'', [''c'', '''']), (''Shared'', ['''', ''''])]"
  by (simp add: to_results_df_def dict_literal_def pd_DataFrame_def Let_def pad_def)

section \<open>Claims about the session\<close>

lemma example_session_eq:
  "example_session = \<lparr>wb_path = Some ''/d/w.xlsx'', sheets = [''S1'', ''S2'', ''S3''],
    dfs = [(''S1'', [(''A'', [Some ''x'', None]), (''B'', [Some ''x'', Some ''y''])]),
           (''S2'', [(''C'', [Some ''p'']), (''D'', [Some ''q''])]),
           (''S3'', [(''E'', [Some ''u'', Some ''v'']), (''F'', [Some ''v''])])],
    labels = [(''S1'', ''A'', ''B''), (''S2'', ''C'', ''D''), (''S3'', ''E'', ''F'')],
    headers = [(''S1'', ''A'', ''B''), (''S2'', ''C'', ''D''), (''S3'', ''E'', ''F'')],
    idx = 0, colorA = ''#f4c27a'', colorB = ''#a6d49f'', alpha = lit_0_45, label_y = lit_1_12\<rparr>"
  by (simp add: example_session_def example_workbook_def load_workbook_def init_state_def Let_def
        split: prod.splits option.splits)

lemma load_sheets_none_usable:
  "list_all lacks_two_columns wb \<Longrightarrow> load_sheets to_str S wb = (S, None)"
  by (induction wb) (auto simp: lacks_two_columns_def split: sum.splits)

lemma load_workbook_unreadable:
  "path \<noteq> [] \<Longrightarrow>
     load_workbook to_str S path (Inl e) = (S, [ShowError ''Error loading workbook'' (exn_msg e)])"
  by (simp add: load_workbook_def)

lemma load_workbook_cancelled: "load_workbook to_str S [] excel = (S, [])"
  by (simp add: load_workbook_def)

text \<open>
  Claim C2, as the code has it. \<open>load_workbook\<close> replaces the path and empties the
  lists of the session before it reads the worksheets. When the workbook is read without
  an exception and no worksheet has two columns, the load reports "No usable sheets" and
  leaves the session with the new path and with no worksheets, data, labels or headers;
  the cursor and the style are as before.
\<close>

theorem load_workbook_no_usable_sheets:
  assumes "path \<noteq> []" and "list_all lacks_two_columns wb"
  shows "load_workbook to_str S path (Inr wb)
     = (S\<lparr> wb_path := Some path, sheets := [], dfs := [], labels := [], headers := [] \<rparr>,
        [no_usable_sheets])"
  using assms by (simp add: load_workbook_def load_sheets_none_usable Let_def)

text \<open>The loaded example session and a workbook with one single-column worksheet.\<close>

theorem load_workbook_no_usable_sheets_witness:
  "load_workbook id example_session ''/d/v.xlsx'' (Inr narrow_workbook)
     = (example_session\<lparr> wb_path := Some ''/d/v.xlsx'', sheets := [], dfs := [], labels := [],
          headers := [] \<rparr>, [no_usable_sheets])"
proof -
  have "''/d/v.xlsx'' \<noteq> []" by simp
  moreover have "list_all lacks_two_columns narrow_workbook"
    by (simp add: narrow_workbook_def lacks_two_columns_def)
  ultimately show ?thesis by (rule load_workbook_no_usable_sheets)
qed

text \<open>
  Claim C2 as the spec words it, "the session remains in its previous state": after the
  three worksheets of the example are loaded, a load of the single-column workbook reports
  "No usable sheets" and leaves no worksheet in the session.
\<close>

theorem load_workbook_no_usable_sheets_counterexample:
  "snd (load_workbook id example_session ''/d/v.xlsx'' (Inr narrow_workbook)) = [no_usable_sheets]
   \<and> sheets example_session = [''S1'', ''S2'', ''S3'']
   \<and> sheets (fst (load_workbook id example_session ''/d/v.xlsx'' (Inr narrow_workbook))) = []
   \<and> fst (load_workbook id example_session ''/d/v.xlsx'' (Inr narrow_workbook)) \<noteq> example_session"
proof -
  have a: "load_workbook id example_session ''/d/v.xlsx'' (Inr narrow_workbook)
     = (example_session\<lparr> wb_path := Some ''/d/v.xlsx'', sheets := [], dfs := [], labels := [],
          headers := [] \<rparr>, [no_usable_sheets])"
    by (simp add: load_workbook_def narrow_workbook_def Let_def)
  have b: "sheets example_session = [''S1'', ''S2'', ''S3'']"
    by (simp add: example_session_def example_workbook_def load_workbook_def init_state_def Let_def
        split: prod.splits option.splits)
  have c: "sheets (fst (load_workbook id example_session ''/d/v.xlsx'' (Inr narrow_workbook))) = []"
    by (simp add: a)
  have "fst (load_workbook id example_session ''/d/v.xlsx'' (Inr narrow_workbook)) \<noteq> example_session"
  proof
    assume "fst (load_workbook id example_session ''/d/v.xlsx'' (Inr narrow_workbook)) = example_session"
    then have "sheets (fst (load_workbook id example_session ''/d/v.xlsx'' (Inr narrow_workbook)))
        = sheets example_session" by simp
    with b c show False by simp
  qed
  with a b c show ?thesis by simp
qed

text \<open>
  The cursor after a load that reaches its end, and after a step to the next or the
  previous worksheet.
\<close>

lemma load_workbook_success:
  assumes "path \<noteq> []"
    and "load_sheets to_str
           (S\<lparr> wb_path := Some path, sheets := [], dfs := [], labels := [], headers := [] \<rparr>) wb
         = (S2, None)"
    and "sheets S2 \<noteq> []"
  shows "fst (load_workbook to_str S path (Inr wb)) = S2\<lparr> idx := 0 \<rparr>"
proof -
  obtain evs r where rf: "refresh_sheet_ui to_str (S2\<lparr> idx := 0 \<rparr>) = (evs, r)"
    by (cases "refresh_sheet_ui to_str (S2\<lparr> idx := 0 \<rparr>)") blast
  show ?thesis
    using assms(1,3) rf by (cases r) (simp_all add: load_workbook_def Let_def assms(2))
qed

lemma next_sheet_state:
  assumes "has_data S" and "sheets S \<noteq> []"
  shows "fst (next_sheet to_str S) = S\<lparr> idx := (idx S + 1) mod int (length (sheets S)) \<rparr>"
proof -
  obtain evs r where
    "refresh_sheet_ui to_str (S\<lparr> idx := (idx S + 1) mod int (length (sheets S)) \<rparr>) = (evs, r)"
    by (cases "refresh_sheet_ui to_str (S\<lparr> idx := (idx S + 1) mod int (length (sheets S)) \<rparr>)") blast
  then show ?thesis
    unfolding next_sheet_def Let_def using assms by simp
qed

lemma prev_sheet_state:
  assumes "has_data S" and "sheets S \<noteq> []"
  shows "fst (prev_sheet to_str S) = S\<lparr> idx := (idx S - 1) mod int (length (sheets S)) \<rparr>"
proof -
  obtain evs r where
    "refresh_sheet_ui to_str (S\<lparr> idx := (idx S - 1) mod int (length (sheets S)) \<rparr>) = (evs, r)"
    by (cases "refresh_sheet_ui to_str (S\<lparr> idx := (idx S - 1) mod int (length (sheets S)) \<rparr>)") blast
  then show ?thesis
    unfolding prev_sheet_def Let_def using assms by simp
qed

lemma next_sheet_in_range:
  assumes "has_data S" and "sheets S \<noteq> []"
  shows "sheets (fst (next_sheet to_str S)) = sheets S
       \<and> 0 \<le> idx (fst (next_sheet to_str S))
       \<and> idx (fst (next_sheet to_str S)) < int (length (sheets S))"
  using assms(2) unfolding next_sheet_state[OF assms] by simp

lemma prev_sheet_in_range:
  assumes "has_data S" and "sheets S \<noteq> []"
  shows "sheets (fst (prev_sheet to_str S)) = sheets S
       \<and> 0 \<le> idx (fst (prev_sheet to_str S))
       \<and> idx (fst (prev_sheet to_str S)) < int (length (sheets S))"
  using assms(2) unfolding prev_sheet_state[OF assms] by simp

text \<open>
  Claim C9 says that the cursor is within the list of worksheets whenever the list is not
  empty. A load that raises in \<open>parse\<close> after a worksheet was read keeps the cursor of
  the session before: from the example session, one step to the next worksheet (cursor 1)
  and a load of a workbook whose second worksheet raises leave one worksheet and the
  cursor 1, and the lookup \<open>S.sheets[S.idx]\<close> of \<open>apply_label_changes\<close> raises
  \<open>IndexError\<close>.
\<close>

theorem cursor_out_of_range_after_failed_load:
  "idx (fst (next_sheet id example_session)) = 1
   \<and> snd (load_workbook id (fst (next_sheet id example_session)) ''/d/v.xlsx'' (Inr broken_workbook))
       = [ShowError ''Error loading workbook'' ''bad sheet'']
   \<and> sheets (fst (load_workbook id (fst (next_sheet id example_session)) ''/d/v.xlsx''
        (Inr broken_workbook))) = [''T1'']
   \<and> idx (fst (load_workbook id (fst (next_sheet id example_session)) ''/d/v.xlsx''
        (Inr broken_workbook))) = 1
   \<and> snd (apply_label_changes id
        (fst (load_workbook id (fst (next_sheet id example_session)) ''/d/v.xlsx''
           (Inr broken_workbook))) ''L'' ''R'')
       = ([], Some (IndexError ''list index out of range''))"
  by code_simp

text \<open>
  What \<open>update_alpha_labely\<close> rejects: an entry that is no number, a transparency for
  which \<open>0.0 <= a <= 1.0\<close> is false (NaN included), a label height below 0.9 or above
  1.6. The style is then as before and nothing is drawn.
\<close>

lemma update_alpha_labely_rejects:
  assumes "(\<exists>e. entry_alpha = Inl e) \<or> (\<exists>e. entry_labely = Inl e)
     \<or> (\<exists>a. entry_alpha = Inr a \<and> \<not> (float_le (Fin 0) a \<and> float_le a (Fin 1)))
     \<or> (\<exists>ly. entry_labely = Inr ly \<and> (float_lt ly lit_0_9 \<or> float_lt lit_1_6 ly))"
  shows "update_alpha_labely to_str S entry_alpha entry_labely = (S, [invalid_values])"
  using assms by (auto simp: update_alpha_labely_def split: sum.splits)

lemma update_alpha_labely_nan_alpha:
  "update_alpha_labely to_str S (Inr NaN) entry_labely = (S, [invalid_values])"
  by (simp add: update_alpha_labely_def split: sum.splits)

text \<open>
  Claim C6 says that a label height outside [0.9, 1.6] is rejected and that nothing is
  drawn with an invalid value. The entry \<open>nan\<close> is a float for \<open>float(...)\<close>, and both
  \<open>ly < 0.9\<close> and \<open>ly > 1.6\<close> are false for it: with transparency 0.5 and label height
  NaN the style of every session becomes (0.5, NaN), and the example session is redrawn
  with label height NaN.
\<close>

theorem update_alpha_labely_nan_height:
  "fst (update_alpha_labely to_str S (Inr (Fin (1/2))) (Inr NaN))
     = S\<lparr> alpha := Fin (1/2), label_y := NaN \<rparr>
   \<and> snd (update_alpha_labely id example_session (Inr (Fin (1/2))) (Inr NaN))
     = [CanvasDraw (Render 0 1 1 ''A'' ''B'' ''#f4c27a'' ''#a6d49f'' (Fin (1/2)) NaN)]"
proof
  show "fst (update_alpha_labely to_str S (Inr (Fin (1/2))) (Inr NaN))
     = S\<lparr> alpha := Fin (1/2), label_y := NaN \<rparr>"
    by (simp add: update_alpha_labely_def lit_0_9_def lit_1_6_def Let_def split: prod.splits option.splits)
  show "snd (update_alpha_labely id example_session (Inr (Fin (1/2))) (Inr NaN))
     = [CanvasDraw (Render 0 1 1 ''A'' ''B'' ''#f4c27a'' ''#a6d49f'' (Fin (1/2)) NaN)]"
    by code_simp
qed

text \<open>
  \<open>load_workbook\<close> leaves a well-formed session, in which there is data exactly when
  there are worksheets, and a session with data has a workbook path.
\<close>

lemma update_not_Nil: "AList.update k v al \<noteq> []"
  by (cases al) simp_all

lemma load_sheets_invariant:
  assumes "session_ok S" and "(dfs S = []) = (sheets S = [])"
  shows "session_ok (fst (load_sheets to_str S wb))
       \<and> ((dfs (fst (load_sheets to_str S wb)) = []) = (sheets (fst (load_sheets to_str S wb)) = []))
       \<and> wb_path (fst (load_sheets to_str S wb)) = wb_path S
       \<and> idx (fst (load_sheets to_str S wb)) = idx S"
  using assms
proof (induction wb arbitrary: S)
  case Nil
  then show ?case by simp
next
  case (Cons sh wb)
  obtain name parsed where sh: "sh = (name, parsed)" by (cases sh) blast
  show ?case
  proof (cases parsed)
    case (Inl e)
    with Cons.prems show ?thesis by (simp add: sh)
  next
    case (Inr df)
    show ?thesis
    proof (cases "2 \<le> length df")
      case False
      with Cons.IH[OF Cons.prems] show ?thesis by (simp add: sh Inr)
    next
      case True
      let ?h = "(to_str (fst (df ! 0)), to_str (fst (df ! 1)))"
      let ?S = "S\<lparr> sheets := sheets S @ [name], dfs := AList.update name df (dfs S),
                   headers := AList.update name ?h (headers S),
                   labels := AList.update name ?h (labels S) \<rparr>"
      have ok: "session_ok ?S"
        using Cons.prems(1) True
        by (auto simp: session_ok_def sheet_ok_def list_all_iff update_conv' split: option.splits)
      have ne: "(dfs ?S = []) = (sheets ?S = [])" by (simp add: update_not_Nil)
      have step: "load_sheets to_str S (sh # wb) = load_sheets to_str ?S wb"
        using True by (simp add: sh Inr Let_def)
      from Cons.IH[OF ok ne] show ?thesis unfolding step by simp
    qed
  qed
qed

lemma load_workbook_invariant:
  assumes "session_ok S" and "(dfs S = []) = (sheets S = [])"
    and "has_data S \<longrightarrow> wb_path S \<noteq> None"
  shows "session_ok (fst (load_workbook to_str S path excel))
       \<and> ((dfs (fst (load_workbook to_str S path excel)) = [])
            = (sheets (fst (load_workbook to_str S path excel)) = []))
       \<and> (has_data (fst (load_workbook to_str S path excel))
            \<longrightarrow> wb_path (fst (load_workbook to_str S path excel)) \<noteq> None)"
proof (cases "path = []")
  case True
  with assms show ?thesis by (simp add: load_workbook_def)
next
  case False
  show ?thesis
  proof (cases excel)
    case (Inl e)
    with assms False show ?thesis by (simp add: load_workbook_def)
  next
    case (Inr wb)
    let ?S1 = "S\<lparr> wb_path := Some path, sheets := [], dfs := [], labels := [], headers := [] \<rparr>"
    have a: "session_ok ?S1" "(dfs ?S1 = []) = (sheets ?S1 = [])" by (simp_all add: session_ok_def)
    obtain S2 r where ls: "load_sheets to_str ?S1 wb = (S2, r)"
      by (cases "load_sheets to_str ?S1 wb") blast
    from load_sheets_invariant[OF a, of to_str wb] ls
    have inv: "session_ok S2" "(dfs S2 = []) = (sheets S2 = [])" "wb_path S2 = Some path"
      by simp_all
    have inv0: "session_ok (S2\<lparr> idx := 0 \<rparr>)"
    proof -
      have "sheet_ok (S2\<lparr> idx := 0 \<rparr>) = sheet_ok S2"
        by (rule ext) (simp add: sheet_ok_def split: option.splits)
      then show ?thesis using inv(1) by (simp add: session_ok_def)
    qed
    obtain evs r' where rf: "refresh_sheet_ui to_str (S2\<lparr> idx := 0 \<rparr>) = (evs, r')"
      by (cases "refresh_sheet_ui to_str (S2\<lparr> idx := 0 \<rparr>)") blast
    have "fst (load_workbook to_str S path excel) = S2
        \<or> fst (load_workbook to_str S path excel) = S2\<lparr> idx := 0 \<rparr>"
      using False by (cases r; cases r') (simp_all add: load_workbook_def Inr Let_def ls rf)
    then show ?thesis using inv inv0 by (auto simp: has_data_def)
  qed
qed

section \<open>Claims about the batch export\<close>

lemma to_results_df_never_raises: "\<exists>t. to_results_df la lb uA uB sh = Inr t"
  by (cases "la = lb")
     (simp_all add: to_results_df_def dict_literal_def pd_DataFrame_def Let_def pad_def)

lemma sheet_exports_shape:
  assumes "sheet_ok S name"
  shows "\<exists>q r q' t. sheet_exports to_str S base_dir ts name = [SaveFig q r, ToCsv q' t]"
proof -
  from assms obtain df lab where df: "map_of (dfs S) name = Some df"
    and lab: "map_of (labels S) name = Some lab"
    by (auto simp: sheet_ok_def split: option.splits)
  obtain setA setB uA uB sh where
    cs: "compute_sets to_str (snd (df ! 0)) (snd (df ! 1)) = (setA, setB, uA, uB, sh)"
    by (cases "compute_sets to_str (snd (df ! 0)) (snd (df ! 1))") blast
  obtain t where t: "to_results_df (fst lab) (snd lab) uA uB sh = Inr t"
    using to_results_df_never_raises by blast
  show ?thesis by (simp add: sheet_exports_def df lab cs[unfolded One_nat_def] t)
qed

lemma save_loop_step:
  assumes "sheet_ok S name" and "\<forall>q. savefig_err E q = None" and "\<forall>q. to_csv_err E q = None"
  shows "save_loop to_str E S False base_dir ts (name # rest) k evs
       = save_loop to_str E S False base_dir ts rest (k + 1)
           (evs @ sheet_exports to_str S base_dir ts name)"
proof -
  from assms(1) obtain df lab where df: "map_of (dfs S) name = Some df"
    and len: "2 \<le> length df"
    and lab: "map_of (labels S) name = Some lab"
    by (auto simp: sheet_ok_def split: option.splits)
  obtain setA setB uA uB sh where
    cs: "compute_sets to_str (snd (df ! 0)) (snd (df ! 1)) = (setA, setB, uA, uB, sh)"
    by (cases "compute_sets to_str (snd (df ! 0)) (snd (df ! 1))") blast
  obtain t where t: "to_results_df (fst lab) (snd lab) uA uB sh = Inr t"
    using to_results_df_never_raises by blast
  have l: "\<not> length df < 2" using len by simp
  have x: "sheet_exports to_str S base_dir ts name =
      [SaveFig (os_path_join base_dir (file_base name (fst lab) (snd lab) ts @ ''.png''))
         (draw_symmetric setA setB (fst lab) (snd lab) (colorA S) (colorB S) (alpha S) (label_y S)),
       ToCsv (os_path_join base_dir (file_base name (fst lab) (snd lab) ts @ ''.csv'')) t]"
    by (simp add: sheet_exports_def df lab cs[unfolded One_nat_def] t)
  show ?thesis
    unfolding x
    by (simp add: dict_lookup_def df lab cs[unfolded One_nat_def] t l
          assms(2)[rule_format] assms(3)[rule_format] Let_def)
qed

lemma save_loop_no_writer:
  assumes "list_all (sheet_ok S) names"
    and "\<forall>q. savefig_err E q = None" and "\<forall>q. to_csv_err E q = None"
  shows "save_loop to_str E S False base_dir ts names k evs
       = (k + length names, evs @ concat (map (sheet_exports to_str S base_dir ts) names), None)"
  using assms(1)
proof (induction names arbitrary: k evs)
  case Nil
  then show ?case by simp
next
  case (Cons name rest)
  then have ok: "sheet_ok S name" and rest: "list_all (sheet_ok S) rest" by simp_all
  show ?case
    unfolding save_loop_step[OF ok assms(2,3)] Cons.IH[OF rest] by simp
qed

lemma export_counts:
  assumes "list_all (\<lambda>n. \<exists>q r q' t. f n = [SaveFig q r, ToCsv q' t]) names"
  shows "length (filter is_savefig (concat (map f names))) = length names
       \<and> length (filter is_to_csv (concat (map f names))) = length names
       \<and> filter is_warning (concat (map f names)) = []
       \<and> filter is_combined (concat (map f names)) = []"
  using assms
proof (induction names)
  case Nil
  then show ?case by simp
next
  case (Cons n names)
  then obtain q r q' t where "f n = [SaveFig q r, ToCsv q' t]" by auto
  with Cons show ?case by simp
qed

text \<open>
  Claim C8. In a well-formed session with data, with the combined workbook asked for and
  \<open>pd.ExcelWriter\<close> raising, and with a file system that takes the directory and every
  image and tabular file, \<open>save_all_sheets\<close> ends without an exception; its events are
  the directory, one warning, for every worksheet in order its image and its tabular file,
  and the message with the count of all worksheets and the output directory; there is
  one image and one tabular file per worksheet, exactly one warning, and nothing is
  written to or closed on a combined workbook.
\<close>

theorem save_all_sheets_without_writer:
  assumes "has_data S" and "wb_path S = Some p" and "session_ok S"
    and "base_dir = os_path_join (os_path_dirname p) ''Venn_Outputs''"
    and "makedirs_err E base_dir = None"
    and "writer_err E (os_path_join base_dir (''venn_batch_results_'' @ ts @ ''.xlsx'')) \<noteq> None"
    and "\<forall>q. savefig_err E q = None" and "\<forall>q. to_csv_err E q = None"
  shows "save_all_sheets to_str E S True ts =
           ([MakeDirs base_dir, openpyxl_warning]
              @ concat (map (sheet_exports to_str S base_dir ts) (sheets S))
              @ [ShowInfo ''Saved'' (''Saved '' @ str_nat (length (sheets S))
                   @ '' sheet(s) PNG+CSV in:'' @ nl @ base_dir)], None)
     \<and> list_all (\<lambda>name. \<exists>q r q' t. sheet_exports to_str S base_dir ts name
                                       = [SaveFig q r, ToCsv q' t]) (sheets S)
     \<and> length (filter is_savefig (fst (save_all_sheets to_str E S True ts))) = length (sheets S)
     \<and> length (filter is_to_csv (fst (save_all_sheets to_str E S True ts))) = length (sheets S)
     \<and> length (filter is_warning (fst (save_all_sheets to_str E S True ts))) = 1
     \<and> filter is_combined (fst (save_all_sheets to_str E S True ts)) = []"
proof -
  let ?bd = "os_path_join (os_path_dirname p) ''Venn_Outputs''"
  have ok: "list_all (sheet_ok S) (sheets S)" using assms(3) by (simp add: session_ok_def)
  have mk: "makedirs_err E ?bd = None" using assms(5) unfolding assms(4) .
  have wr: "writer_err E (os_path_join ?bd (''venn_batch_results_'' @ ts @ ''.xlsx'')) \<noteq> None"
    using assms(6) unfolding assms(4) .
  have loop: "save_loop to_str E S False ?bd ts (sheets S) 0 [MakeDirs ?bd, openpyxl_warning]
       = (length (sheets S),
          [MakeDirs ?bd, openpyxl_warning]
            @ concat (map (sheet_exports to_str S ?bd ts) (sheets S)), None)"
    using save_loop_no_writer[OF ok assms(7,8), of to_str ?bd ts 0] by simp
  have run: "save_all_sheets to_str E S True ts =
           ([MakeDirs ?bd, openpyxl_warning]
              @ concat (map (sheet_exports to_str S ?bd ts) (sheets S))
              @ [ShowInfo ''Saved'' (''Saved '' @ str_nat (length (sheets S))
                   @ '' sheet(s) PNG+CSV in:'' @ nl @ ?bd)], None)"
  proof -
    from wr obtain e where
      we: "writer_err E (os_path_join ?bd (''venn_batch_results_'' @ ts @ ''.xlsx'')) = Some e"
      by blast
    show ?thesis
      using assms(1,2) mk we loop by (simp add: save_all_sheets_def Let_def)
  qed
  have shape: "list_all (\<lambda>name. \<exists>q r q' t. sheet_exports to_str S ?bd ts name
                                       = [SaveFig q r, ToCsv q' t]) (sheets S)"
    using ok sheet_exports_shape[of S _ to_str ?bd ts] by (simp add: list_all_iff)
  note cnt = export_counts[OF shape]
  have w: "is_warning openpyxl_warning" by (simp add: openpyxl_warning_def)
  have c: "\<not> is_combined openpyxl_warning" "\<not> is_savefig openpyxl_warning"
    "\<not> is_to_csv openpyxl_warning"
    by (simp_all add: openpyxl_warning_def)
  show ?thesis
    unfolding assms(4) run using shape cnt w c by simp
qed

text \<open>The three worksheets of the example session, exported without \<open>openpyxl\<close>.\<close>

theorem save_all_sheets_without_writer_witness:
  "save_all_sheets id no_openpyxl example_session True ''20250101-000000'' =
     ([MakeDirs ''/d/Venn_Outputs'', openpyxl_warning,
       SaveFig ''/d/Venn_Outputs/S1__A_vs_B_20250101-000000.png''
         (Render 0 1 1 ''A'' ''B'' ''#f4c27a'' ''#a6d49f'' lit_0_45 lit_1_12),
       ToCsv ''/d/Venn_Outputs/S1__A_vs_B_20250101-000000.csv''
         [(''Unique to A'', ['''']), (''Unique to B'', [''y'']), (''Shared'', [''x''])],
       SaveFig ''/d/Venn_Outputs/S2__C_vs_D_20250101-000000.png''
         (Render 1 1 0 ''C'' ''D'' ''#f4c27a'' ''#a6d49f'' lit_0_45 lit_1_12),
       ToCsv ''/d/Venn_Outputs/S2__C_vs_D_20250101-000000.csv''
         [(''Unique to C'', [''p'']), (''Unique to D'', [''q'']), (''Shared'', [''''])],
       SaveFig ''/d/Venn_Outputs/S3__E_vs_F_20250101-000000.png''
         (Render 1 0 1 ''E'' ''F'' ''#f4c27a'' ''#a6d49f'' lit_0_45 lit_1_12),
       ToCsv ''/d/Venn_Outputs/S3__E_vs_F_20250101-000000.csv''
         [(''Unique to E'', [''u'']), (''Unique to F'', ['''']), (''Shared'', [''v''])],
       ShowInfo ''Saved'' (''Saved 3 sheet(s) PNG+CSV in:'' @ nl @ ''/d/Venn_Outputs'')], None)
   \<and> length (filter is_savefig
         (fst (save_all_sheets id no_openpyxl example_session True ''20250101-000000''))) = 3
   \<and> length (filter is_to_csv
         (fst (save_all_sheets id no_openpyxl example_session True ''20250101-000000''))) = 3
   \<and> length (filter is_warning
         (fst (save_all_sheets id no_openpyxl example_session True ''20250101-000000''))) = 1
   \<and> filter is_combined
         (fst (save_all_sheets id no_openpyxl example_session True ''20250101-000000'')) = []"
proof -
  have h1: "has_data example_session" by (simp add: example_session_eq has_data_def)
  have h2: "wb_path example_session = Some ''/d/w.xlsx''" by (simp add: example_session_eq)
  have h3: "session_ok example_session"
    by (simp add: example_session_eq session_ok_def sheet_ok_def)
  have h4: "''/d/Venn_Outputs'' = os_path_join (os_path_dirname ''/d/w.xlsx'') ''Venn_Outputs''"
    by code_simp
  have h5: "makedirs_err no_openpyxl ''/d/Venn_Outputs'' = None" by (simp add: no_openpyxl_def)
  have h6: "writer_err no_openpyxl
      (os_path_join ''/d/Venn_Outputs'' (''venn_batch_results_'' @ ''20250101-000000'' @ ''.xlsx''))
      \<noteq> None" by (simp add: no_openpyxl_def)
  have h7: "\<forall>q. savefig_err no_openpyxl q = None" by (simp add: no_openpyxl_def)
  have h8: "\<forall>q. to_csv_err no_openpyxl q = None" by (simp add: no_openpyxl_def)
  note th = save_all_sheets_without_writer[OF h1 h2 h3 h4 h5 h6 h7 h8, of id]
  have ls: "length (sheets example_session) = 3" by (simp add: example_session_eq)
  have n: "str_nat 3 = ''3''" by code_simp
  have ev: "concat (map (sheet_exports id example_session ''/d/Venn_Outputs'' ''20250101-000000'')
              (sheets example_session)) =
      [SaveFig ''/d/Venn_Outputs/S1__A_vs_B_20250101-000000.png''
         (Render 0 1 1 ''A'' ''B'' ''#f4c27a'' ''#a6d49f'' lit_0_45 lit_1_12),
       ToCsv ''/d/Venn_Outputs/S1__A_vs_B_20250101-000000.csv''
         [(''Unique to A'', ['''']), (''Unique to B'', [''y'']), (''Shared'', [''x''])],
       SaveFig ''/d/Venn_Outputs/S2__C_vs_D_20250101-000000.png''
         (Render 1 1 0 ''C'' ''D'' ''#f4c27a'' ''#a6d49f'' lit_0_45 lit_1_12),
       ToCsv ''/d/Venn_Outputs/S2__C_vs_D_20250101-000000.csv''
         [(''Unique to C'', [''p'']), (''Unique to D'', [''q'']), (''Shared'', [''''])],
       SaveFig ''/d/Venn_Outputs/S3__E_vs_F_20250101-000000.png''
         (Render 1 0 1 ''E'' ''F'' ''#f4c27a'' ''#a6d49f'' lit_0_45 lit_1_12),
       ToCsv ''/d/Venn_Outputs/S3__E_vs_F_20250101-000000.csv''
         [(''Unique to E'', [''u'']), (''Unique to F'', ['''']), (''Shared'', [''v''])]]"
    by code_simp
  from th have r: "save_all_sheets id no_openpyxl example_session True ''20250101-000000'' =
           ([MakeDirs ''/d/Venn_Outputs'', openpyxl_warning]
              @ concat (map (sheet_exports id example_session ''/d/Venn_Outputs'' ''20250101-000000'')
                  (sheets example_session))
              @ [ShowInfo ''Saved'' (''Saved '' @ str_nat (length (sheets example_session))
                   @ '' sheet(s) PNG+CSV in:'' @ nl @ ''/d/Venn_Outputs'')], None)"
    by (rule conjunct1)
  have c1: "length (filter is_savefig
         (fst (save_all_sheets id no_openpyxl example_session True ''20250101-000000''))) = 3"
    and c2: "length (filter is_to_csv
         (fst (save_all_sheets id no_openpyxl example_session True ''20250101-000000''))) = 3"
    and c3: "length (filter is_warning
         (fst (save_all_sheets id no_openpyxl example_session True ''20250101-000000''))) = 1"
    and c4: "filter is_combined
         (fst (save_all_sheets id no_openpyxl example_session True ''20250101-000000'')) = []"
    using th unfolding ls by blast+
  have c0: "save_all_sheets id no_openpyxl example_session True ''20250101-000000'' =
     ([MakeDirs ''/d/Venn_Outputs'', openpyxl_warning,
       SaveFig ''/d/Venn_Outputs/S1__A_vs_B_20250101-000000.png''
         (Render 0 1 1 ''A'' ''B'' ''#f4c27a'' ''#a6d49f'' lit_0_45 lit_1_12),
       ToCsv ''/d/Venn_Outputs/S1__A_vs_B_20250101-000000.csv''
         [(''Unique to A'', ['''']), (''Unique to B'', [''y'']), (''Shared'', [''x''])],
       SaveFig ''/d/Venn_Outputs/S2__C_vs_D_20250101-000000.png''
         (Render 1 1 0 ''C'' ''D'' ''#f4c27a'' ''#a6d49f'' lit_0_45 lit_1_12),
       ToCsv ''/d/Venn_Outputs/S2__C_vs_D_20250101-000000.csv''
         [(''Unique to C'', [''p'']), (''Unique to D'', [''q'']), (''Shared'', [''''])],
       SaveFig ''/d/Venn_Outputs/S3__E_vs_F_20250101-000000.png''
         (Render 1 0 1 ''E'' ''F'' ''#f4c27a'' ''#a6d49f'' lit_0_45 lit_1_12),
       ToCsv ''/d/Venn_Outputs/S3__E_vs_F_20250101-000000.csv''
         [(''Unique to E'', [''u'']), (''Unique to F'', ['''']), (''Shared'', [''v''])],
       ShowInfo ''Saved'' (''Saved 3 sheet(s) PNG+CSV in:'' @ nl @ ''/d/Venn_Outputs'')], None)"
    unfolding r ev ls n by simp
  from c0 c1 c2 c3 c4 show ?thesis by (intro conjI)
qed

end
